theory Spec2Isabelle
  imports Main "HOL-Library.Word" "HOL-Library.Multiset"
begin

section \<open>Readiness predicates (pkg/kube/wait.go)\<close>

text \<open>
  The Kubernetes API types are Go structs of the client library. Only the fields that
  \<^verbatim>\<open>wait.go\<close> reads are kept. \<^verbatim>\<open>PodConditionType\<close>, \<^verbatim>\<open>ConditionStatus\<close> and
  \<^verbatim>\<open>ServiceType\<close> are Go string types, so they are strings here and the constants
  of package \<^verbatim>\<open>v1\<close> are string constants. A Go slice that the code only measures or
  ranges over is a list; the ingress slice, which the code compares with \<^verbatim>\<open>nil\<close>, is
  an optional list (\<open>None\<close> is the nil slice, \<open>Some []\<close> an allocated empty one).
  The calls of \<^verbatim>\<open>c.Log\<close> only write a log line and are left out.
\<close>

record PodCondition =
  Type :: string
  Status :: string

record PodStatus =
  Conditions :: "PodCondition list"

record Pod =
  Status :: PodStatus

definition PodReady :: string where
  "PodReady = ''Ready''"

definition ConditionTrue :: string where
  "ConditionTrue = ''True''"

record LoadBalancerIngress =
  IP :: string
  Hostname :: string

record LoadBalancerStatus =
  Ingress :: "LoadBalancerIngress list option"

record ServiceStatus =
  LoadBalancer :: LoadBalancerStatus

record ServiceSpec =
  Type :: string
  ClusterIP :: string

record Service =
  Spec :: ServiceSpec
  Status :: ServiceStatus

definition ServiceTypeExternalName :: string where
  "ServiceTypeExternalName = ''ExternalName''"

definition ServiceTypeLoadBalancer :: string where
  "ServiceTypeLoadBalancer = ''LoadBalancer''"

definition ClusterIPNone :: string where
  "ClusterIPNone = ''None''"

text \<open>
  The loop of \<^verbatim>\<open>isPodReady\<close> over the conditions: it returns true at the first
  condition of type Ready with status True, and false when the slice is exhausted.
\<close>

fun isPodReady_loop :: "PodCondition list \<Rightarrow> bool" where
  "isPodReady_loop [] = False"
| "isPodReady_loop (condition # rest) =
     (if PodCondition.Type condition = PodReady \<and> PodCondition.Status condition = ConditionTrue
      then True
      else isPodReady_loop rest)"

text \<open>
  \<^verbatim>\<open>&pod.Status != nil\<close> is the address of a struct field and always holds; the
  second conjunct is \<^verbatim>\<open>len(pod.Status.Conditions) > 0\<close>.
\<close>

definition isPodReady :: "Pod \<Rightarrow> bool" where
  "isPodReady pod =
     (if 0 < length (Conditions (Pod.Status pod))
      then isPodReady_loop (Conditions (Pod.Status pod))
      else False)"

fun podsReady :: "Pod list \<Rightarrow> bool" where
  "podsReady [] = True"
| "podsReady (pod # pods) = (if \<not> isPodReady pod then False else podsReady pods)"

fun servicesReady :: "Service list \<Rightarrow> bool" where
  "servicesReady [] = True"
| "servicesReady (s # svc) =
     (if ServiceSpec.Type (Spec s) = ServiceTypeExternalName then servicesReady svc
      else if ClusterIP (Spec s) \<noteq> ClusterIPNone \<and> ClusterIP (Spec s) = [] then False
      else if ServiceSpec.Type (Spec s) = ServiceTypeLoadBalancer
              \<and> Ingress (LoadBalancer (Service.Status s)) = None then False
      else servicesReady svc)"

subsection \<open>Example objects\<close>

definition cond_ready_false :: PodCondition where
  "cond_ready_false = \<lparr>PodCondition.Type = ''Ready'', PodCondition.Status = ''False''\<rparr>"

definition cond_ready_true :: PodCondition where
  "cond_ready_true = \<lparr>PodCondition.Type = ''Ready'', PodCondition.Status = ''True''\<rparr>"

definition pod_with :: "PodCondition list \<Rightarrow> Pod" where
  "pod_with cs = \<lparr>Pod.Status = \<lparr>Conditions = cs\<rparr>\<rparr>"

definition service_with :: "string \<Rightarrow> string \<Rightarrow> LoadBalancerIngress list option \<Rightarrow> Service" where
  "service_with ty ip ing =
     \<lparr>Spec = \<lparr>ServiceSpec.Type = ty, ClusterIP = ip\<rparr>,
      Service.Status = \<lparr>LoadBalancer = \<lparr>Ingress = ing\<rparr>\<rparr>\<rparr>"

section \<open>Go library functions used by package manifest\<close>

text \<open>
  A Go string is a sequence of bytes and so is a \<^typ>\<open>string\<close> here. The functions
  \<^verbatim>\<open>HasPrefix\<close>, \<^verbatim>\<open>HasSuffix\<close> and \<^verbatim>\<open>Split\<close> of package \<^verbatim>\<open>strings\<close>,
  \<^verbatim>\<open>strconv.Atoi\<close> and the functions of package \<^verbatim>\<open>path\<close> work on bytes and are
  modelled byte by byte. \<^verbatim>\<open>strings.TrimSpace\<close> and \<^verbatim>\<open>strings.ToLower\<close> work on
  Unicode code points (white space such as U+00A0, letters beyond ASCII); they are not
  modelled but are parameters of the functions that call them, below.
\<close>

definition HasPrefix :: "string \<Rightarrow> string \<Rightarrow> bool" where
  "HasPrefix s pre \<longleftrightarrow> length pre \<le> length s \<and> take (length pre) s = pre"

definition HasSuffix :: "string \<Rightarrow> string \<Rightarrow> bool" where
  "HasSuffix s suf \<longleftrightarrow> length suf \<le> length s \<and> drop (length s - length suf) s = suf"

text \<open>
  \<^verbatim>\<open>strings.Split(s, sep)\<close> for a separator of one byte: the pieces of \<open>s\<close> between
  the separators, so one piece more than there are separators (the empty string gives
  one empty piece). The case for an empty list of pieces is never reached.
\<close>

fun Split :: "string \<Rightarrow> char \<Rightarrow> string list" where
  "Split [] sep = [[]]"
| "Split (c # cs) sep =
     (if c = sep then [] # Split cs sep
      else (case Split cs sep of [] \<Rightarrow> [[c]] | w # ws \<Rightarrow> (c # w) # ws))"

text \<open>
  \<^verbatim>\<open>strconv.Atoi\<close>: an optional sign, then one or more decimal digits; \<open>None\<close>
  stands for a returned error (a syntax error, or a value outside the 64-bit \<^verbatim>\<open>int\<close>).
\<close>

definition isDigit :: "char \<Rightarrow> bool" where
  "isDigit c \<longleftrightarrow> (let n = (of_char c :: nat) in 48 \<le> n \<and> n \<le> 57)"

definition digit_val :: "char \<Rightarrow> int" where
  "digit_val c = int (of_char c) - 48"

definition Atoi :: "string \<Rightarrow> int option" where
  "Atoi s =
     (let neg = (s \<noteq> [] \<and> hd s = CHR ''-'');
          ds = (if s \<noteq> [] \<and> (hd s = CHR ''-'' \<or> hd s = CHR ''+'') then tl s else s)
      in if ds = [] \<or> \<not> list_all isDigit ds then None
         else let n = foldl (\<lambda>acc d. 10 * acc + digit_val d) 0 ds;
                  v = (if neg then - n else n)
              in if v < - (2 ^ 63) \<or> 2 ^ 63 - 1 < v then None else Some v)"

text \<open>
  Package \<^verbatim>\<open>path\<close>. \<^verbatim>\<open>path.Split\<close> cuts after the last slash. \<^verbatim>\<open>path.Clean\<close>
  walks the slash-separated elements of the path: it drops empty elements and \<^verbatim>\<open>.\<close>,
  lets \<^verbatim>\<open>..\<close> remove the element before it (or keeps it, at the start of a path that
  is not rooted), and joins what is left with single slashes. \<open>out\<close> is the output so
  far as a stack of elements, the last one first.
\<close>

definition path_Split :: "string \<Rightarrow> string \<times> string" where
  "path_Split p =
     (rev (dropWhile (\<lambda>c. c \<noteq> CHR ''/'') (rev p)), rev (takeWhile (\<lambda>c. c \<noteq> CHR ''/'') (rev p)))"

fun intercalate :: "string \<Rightarrow> string list \<Rightarrow> string" where
  "intercalate sep [] = []"
| "intercalate sep [x] = x"
| "intercalate sep (x # y # ys) = x @ sep @ intercalate sep (y # ys)"

definition clean_step :: "bool \<Rightarrow> string list \<Rightarrow> string \<Rightarrow> string list" where
  "clean_step rooted out elem =
     (if elem = [] \<or> elem = ''.'' then out
      else if elem = ''..'' then
        (if out \<noteq> [] \<and> hd out \<noteq> ''..'' then tl out
         else if \<not> rooted then ''..'' # out
         else out)
      else elem # out)"

definition path_Clean :: "string \<Rightarrow> string" where
  "path_Clean p =
     (if p = [] then ''.''
      else let rooted = (hd p = CHR ''/'');
               out = foldl (clean_step rooted) [] (Split p CHR ''/'')
           in if rooted then ''/'' @ intercalate ''/'' (rev out)
              else if out = [] then ''.''
              else intercalate ''/'' (rev out))"

definition path_Dir :: "string \<Rightarrow> string" where
  "path_Dir p = path_Clean (fst (path_Split p))"

definition path_Base :: "string \<Rightarrow> string" where
  "path_Base p =
     (if p = [] then ''.''
      else let p1 = rev (dropWhile (\<lambda>c. c = CHR ''/'') (rev p));
               p2 = rev (takeWhile (\<lambda>c. c \<noteq> CHR ''/'') (rev p1))
           in if p2 = [] then ''/'' else p2)"

text \<open>
  \<^verbatim>\<open>path.Match\<close> for patterns made of \<^verbatim>\<open>*\<close>, \<^verbatim>\<open>?\<close> and literal bytes, which is
  what the one pattern of this package is made of. A star matches any run of bytes other
  than the slash, a question mark one such byte. The only error of \<^verbatim>\<open>path.Match\<close> is
  \<^verbatim>\<open>ErrBadPattern\<close>, for a malformed character class or escape; a pattern without
  them never gives it, so the error component is \<open>None\<close>.
\<close>

datatype error = YAMLParseError string string | ErrBadPattern

fun glob :: "string \<Rightarrow> string \<Rightarrow> bool" where
  "glob [] name = (name = [])"
| "glob (p # ps) [] = (p = CHR ''*'' \<and> glob ps [])"
| "glob (p # ps) (c # cs) =
     (if p = CHR ''*'' then glob ps (c # cs) \<or> (c \<noteq> CHR ''/'' \<and> glob (p # ps) cs)
      else if p = CHR ''?'' then c \<noteq> CHR ''/'' \<and> glob ps cs
      else p = c \<and> glob ps cs)"

definition path_Match :: "string \<Rightarrow> string \<Rightarrow> bool \<times> error option" where
  "path_Match pattern name = (glob pattern name, None)"

section \<open>Package manifest: the data\<close>

text \<open>
  Modelled from the spec: the struct types \<^verbatim>\<open>util.SimpleHead\<close>, \<^verbatim>\<open>Manifest\<close> and
  \<^verbatim>\<open>release.Hook\<close>, whose declarations are not among the sources. The spec gives a
  parsed head its kind, API version, name and annotation mapping, a generic manifest its
  name, content and head, and a hook its name, kind, path, manifest, events, weight and
  delete policies; these are also the fields that \<^verbatim>\<open>sort\<close> reads and sets. The
  types are those that the code of \<^verbatim>\<open>sort\<close> requires: \<^verbatim>\<open>Metadata\<close> is a pointer
  that is compared with nil (\<open>None\<close> is nil), the annotations are a Go map from strings
  to strings that may be nil (\<open>None\<close> is the nil map), kept as an association list read
  with \<^const>\<open>map_of\<close>, and the weight is an \<^verbatim>\<open>int32\<close>. The types of hook events and
  delete policies belong to package \<^verbatim>\<open>release\<close> and stay type parameters \<open>'e\<close> and
  \<open>'p\<close>. The calls of \<^verbatim>\<open>log.Printf\<close> only write a log line and are left out of the
  functions below.
\<close>

record Metadata =
  Name :: string
  Annotations :: "(string \<times> string) list option"

record SimpleHead =
  Version :: string
  Kind :: string
  Metadata :: "Metadata option"

record Manifest =
  Name :: string
  Content :: string
  Head :: SimpleHead

record ('e, 'p) Hook =
  Name :: string
  Kind :: string
  Path :: string
  Manifest :: string
  Events :: "'e list"
  Weight :: "32 word"
  DeletePolicies :: "'p list"

record ('e, 'p) result =
  hooks :: "('e, 'p) Hook list"
  generic :: "Manifest list"

text \<open>
  The entries of a \<^verbatim>\<open>manifestFile\<close> are a Go map, the one that
  \<^verbatim>\<open>util.SplitManifests\<close> returns; the loop of \<^verbatim>\<open>sort\<close> ignores its keys, so the
  map is kept as the list of its values. Go leaves the order of a \<^verbatim>\<open>range\<close> over a
  map unspecified, and it may differ from one loop to the next. The order in which the
  loop of \<^verbatim>\<open>sort\<close> visits the entries is therefore an input of a run of its own:
  \<open>visit p es\<close> is the order in which the loop visits the entries \<open>es\<close> of the file
  at path \<open>p\<close>, one of the rearrangements of \<open>es\<close>.
\<close>

type_synonym range_order = "string \<Rightarrow> string list \<Rightarrow> string list"

record manifestFile =
  entries :: "string list"
  path :: string
  apis :: "string set"

text \<open>
  Modelled from the spec: the sort order of generic manifests, an enumeration of
  \<^verbatim>\<open>InstallOrder\<close> and \<^verbatim>\<open>UninstallOrder\<close>; its declaration is in the kind sorter,
  which is not among the sources.
\<close>

datatype SortOrder = InstallOrder | UninstallOrder

text \<open>
  What package manifest takes from elsewhere, as one record of parameters: the YAML
  library's \<^verbatim>\<open>Unmarshal\<close> into a \<^verbatim>\<open>SimpleHead\<close> (\<open>Inl\<close> carries the error
  message), \<^verbatim>\<open>util.SplitManifests\<close>, \<^verbatim>\<open>sortByKind\<close>, the annotation keys and
  the two tables of package \<^verbatim>\<open>hooks\<close>, and \<^verbatim>\<open>strings.TrimSpace\<close> and
  \<^verbatim>\<open>strings.ToLower\<close>.
\<close>

record ('e, 'p) externals =
  yaml_Unmarshal :: "string \<Rightarrow> string + SimpleHead"
  util_SplitManifests :: "string \<Rightarrow> string list"
  sortByKind :: "Manifest list \<Rightarrow> SortOrder \<Rightarrow> Manifest list"
  hooks_HookAnno :: string
  hooks_HookWeightAnno :: string
  hooks_HookDeleteAnno :: string
  hooks_Events :: "string \<rightharpoonup> 'e"
  hooks_DeletePolices :: "string \<rightharpoonup> 'p"
  strings_TrimSpace :: "string \<Rightarrow> string"
  strings_ToLower :: "string \<Rightarrow> string"

text \<open>
  A Go call either returns or panics: dereferencing a nil \<^verbatim>\<open>Metadata\<close> pointer is a
  run-time panic, which no caller here recovers from.
\<close>

datatype 'a run = Panic | Done 'a

definition notesFileSuffix :: string where
  "notesFileSuffix = ''NOTES.txt''"

definition notesFileParentGlob :: string where
  "notesFileParentGlob = ''*/templates/NOTES.txt''"

section \<open>Package manifest: the functions\<close>

definition hasAnyAnnotation :: "SimpleHead \<Rightarrow> bool" where
  "hasAnyAnnotation entry =
     (case Metadata entry of
        None \<Rightarrow> False
      | Some md \<Rightarrow>
          (case Annotations md of
             None \<Rightarrow> False
           | Some anns \<Rightarrow> if length anns = 0 then False else True))"

text \<open>
  Indexing a Go map, \<^verbatim>\<open>v, ok := m[k]\<close>: a nil map has no key. The plain form
  \<^verbatim>\<open>m[k]\<close> gives the empty string for a missing key.
\<close>

definition index_ok :: "(string \<times> string) list option \<Rightarrow> string \<Rightarrow> string option" where
  "index_ok m k = (case m of None \<Rightarrow> None | Some kvs \<Rightarrow> map_of kvs k)"

definition index :: "(string \<times> string) list option \<Rightarrow> string \<Rightarrow> string" where
  "index m k = (case index_ok m k of None \<Rightarrow> [] | Some v \<Rightarrow> v)"

definition calculateHookWeight :: "('e, 'p) externals \<Rightarrow> SimpleHead \<Rightarrow> 32 word run" where
  "calculateHookWeight I entry =
     (case Metadata entry of
        None \<Rightarrow> Panic
      | Some md \<Rightarrow>
          (let hws = index (Annotations md) (hooks_HookWeightAnno I);
               hw = (case Atoi hws of None \<Rightarrow> 0 | Some n \<Rightarrow> n)
           in Done (word_of_int hw)))"

definition operateAnnotationValues ::
  "('e, 'p) externals \<Rightarrow> SimpleHead \<Rightarrow> string \<Rightarrow> (string \<Rightarrow> 's \<Rightarrow> 's) \<Rightarrow> 's \<Rightarrow> 's run"
  where
  "operateAnnotationValues I entry annotation operate st =
     (case Metadata entry of
        None \<Rightarrow> Panic
      | Some md \<Rightarrow>
          (case index_ok (Annotations md) annotation of
             Some dps \<Rightarrow>
               Done (fold (\<lambda>dp. operate (strings_ToLower I (strings_TrimSpace I dp)))
                       (Split dps CHR '','') st)
           | None \<Rightarrow> Done st))"

text \<open>
  The loop of \<^verbatim>\<open>sort\<close> over the hook types: it appends the event of each type to
  the hook and stops at the first type that the table does not hold. The second
  component is \<^verbatim>\<open>isUnknownHook\<close>.
\<close>

fun hookTypes_loop ::
  "('e, 'p) externals \<Rightarrow> string list \<Rightarrow> ('e, 'p) Hook \<Rightarrow> ('e, 'p) Hook \<times> bool" where
  "hookTypes_loop I [] h = (h, False)"
| "hookTypes_loop I (hookType # rest) h =
     (case hooks_Events I (strings_ToLower I (strings_TrimSpace I hookType)) of
        None \<Rightarrow> (h, True)
      | Some e \<Rightarrow> hookTypes_loop I rest (h\<lparr>Events := Events h @ [e]\<rparr>))"

text \<open>The function literal that \<^verbatim>\<open>sort\<close> passes to \<^verbatim>\<open>operateAnnotationValues\<close>.\<close>

definition delete_policy_operate ::
  "('e, 'p) externals \<Rightarrow> string \<Rightarrow> ('e, 'p) Hook \<Rightarrow> ('e, 'p) Hook" where
  "delete_policy_operate I value h =
     (case hooks_DeletePolices I value of
        Some policy \<Rightarrow> h\<lparr>DeletePolicies := DeletePolicies h @ [policy]\<rparr>
      | None \<Rightarrow> h)"

text \<open>
  One round of the loop of \<^verbatim>\<open>sort\<close>, for the entry \<open>m\<close>: it returns an error,
  goes on to the next entry with the result it has updated, or panics. The code appends
  the pointer \<open>h\<close> to \<^verbatim>\<open>result.hooks\<close> and fills in the delete policies through it
  afterwards; the hook that the result holds in the end is the one appended here.
\<close>

datatype ('e, 'p) round = Return error | Continue "('e, 'p) result" | Panics

definition sort_entry ::
  "('e, 'p) externals \<Rightarrow> manifestFile \<Rightarrow> string \<Rightarrow> ('e, 'p) result \<Rightarrow> ('e, 'p) round" where
  "sort_entry I file m result =
     (case yaml_Unmarshal I m of
        Inl err \<Rightarrow> Return (YAMLParseError (path file) err)
      | Inr entry \<Rightarrow>
          if \<not> hasAnyAnnotation entry then
            Continue (result\<lparr>generic := generic result @
              [\<lparr>Manifest.Name = path file, Content = m, Head = entry\<rparr>]\<rparr>)
          else
            (case Metadata entry of
               None \<Rightarrow> Panics
             | Some md \<Rightarrow>
                 (case index_ok (Annotations md) (hooks_HookAnno I) of
                    None \<Rightarrow>
                      Continue (result\<lparr>generic := generic result @
                        [\<lparr>Manifest.Name = path file, Content = m, Head = entry\<rparr>]\<rparr>)
                  | Some hookTypes \<Rightarrow>
                      (case calculateHookWeight I entry of
                         Panic \<Rightarrow> Panics
                       | Done hw \<Rightarrow>
                           (let h = \<lparr>Hook.Name = Metadata.Name md,
                                     Kind = SimpleHead.Kind entry,
                                     Path = path file,
                                     Manifest = m,
                                     Events = [],
                                     Weight = hw,
                                     DeletePolicies = []\<rparr>;
                                (h', isUnknownHook) =
                                  hookTypes_loop I (Split hookTypes CHR '','') h
                            in if isUnknownHook then Continue result
                               else
                                 (case operateAnnotationValues I entry (hooks_HookDeleteAnno I)
                                         (delete_policy_operate I) h' of
                                    Panic \<Rightarrow> Panics
                                  | Done h'' \<Rightarrow>
                                      Continue (result\<lparr>hooks := hooks result @ [h'']\<rparr>)))))))"

text \<open>
  \<^verbatim>\<open>sort\<close>: the rounds over the entries of the file, in the order \<open>visit\<close>. The
  result is passed by pointer, so the caller sees what was appended before an error too;
  the second component is the returned error.
\<close>

fun sort_loop ::
  "('e, 'p) externals \<Rightarrow> manifestFile \<Rightarrow> string list \<Rightarrow> ('e, 'p) result
     \<Rightarrow> (('e, 'p) result \<times> error option) run" where
  "sort_loop I file [] result = Done (result, None)"
| "sort_loop I file (m # ms) result =
     (case sort_entry I file m result of
        Return e \<Rightarrow> Done (result, Some e)
      | Panics \<Rightarrow> Panic
      | Continue result' \<Rightarrow> sort_loop I file ms result')"

definition sort_manifestFile ::
  "('e, 'p) externals \<Rightarrow> range_order \<Rightarrow> manifestFile \<Rightarrow> ('e, 'p) result
     \<Rightarrow> (('e, 'p) result \<times> error option) run" where
  "sort_manifestFile I visit file result =
     sort_loop I file (visit (path file) (entries file)) result"

text \<open>
  \<^verbatim>\<open>Partition\<close>, the version that returns the notes as a map from chart name to
  content. The files are a Go map; \<open>files\<close> lists its entries in the order in which the
  \<^verbatim>\<open>range\<close> loop visits them. The loop carries the result and the notes.
\<close>

fun Partition_loop ::
  "('e, 'p) externals \<Rightarrow> range_order \<Rightarrow> string set \<Rightarrow> (string \<times> string) list
     \<Rightarrow> ('e, 'p) result \<Rightarrow> (string \<rightharpoonup> string)
     \<Rightarrow> (('e, 'p) result \<times> (string \<rightharpoonup> string) \<times> error option) run" where
  "Partition_loop I visit versions [] result notes = Done (result, notes, None)"
| "Partition_loop I visit versions ((filePath, c) # files) result notes =
     (if HasPrefix (path_Base filePath) ''_'' then Partition_loop I visit versions files result notes
      else if length (strings_TrimSpace I c) = 0 then Partition_loop I visit versions files result notes
      else if HasSuffix filePath notesFileSuffix then
        (let chartName = path_Base (path_Dir (path_Dir filePath))
         in Partition_loop I visit versions files result (notes(chartName \<mapsto> c)))
      else
        (case sort_manifestFile I visit
                \<lparr>entries = util_SplitManifests I c, path = filePath, apis = versions\<rparr> result of
           Panic \<Rightarrow> Panic
         | Done (result', Some err) \<Rightarrow> Done (result', notes, Some err)
         | Done (result', None) \<Rightarrow> Partition_loop I visit versions files result' notes))"

definition Partition ::
  "('e, 'p) externals \<Rightarrow> range_order \<Rightarrow> (string \<times> string) list \<Rightarrow> string set
     \<Rightarrow> SortOrder
     \<Rightarrow> (('e, 'p) Hook list \<times> Manifest list \<times> (string \<rightharpoonup> string) \<times> error option) run" where
  "Partition I visit files versions order =
     (case Partition_loop I visit versions files \<lparr>hooks = [], generic = []\<rparr> Map.empty of
        Panic \<Rightarrow> Panic
      | Done (result, notes, Some err) \<Rightarrow> Done (hooks result, generic result, notes, Some err)
      | Done (result, notes, None) \<Rightarrow>
          Done (hooks result, sortByKind I (generic result) order, notes, None))"

text \<open>
  The other version of \<^verbatim>\<open>Partition\<close>, which returns the notes of the parent chart
  as one string. Its \<^verbatim>\<open>sort\<close> and the functions below it are the same, line by line.
\<close>

fun Partition_string_loop ::
  "('e, 'p) externals \<Rightarrow> range_order \<Rightarrow> string set \<Rightarrow> (string \<times> string) list
     \<Rightarrow> ('e, 'p) result \<Rightarrow> string
     \<Rightarrow> (('e, 'p) result \<times> string \<times> error option) run" where
  "Partition_string_loop I visit versions [] result notes = Done (result, notes, None)"
| "Partition_string_loop I visit versions ((filePath, c) # files) result notes =
     (if HasPrefix (path_Base filePath) ''_'' then
        Partition_string_loop I visit versions files result notes
      else if length (strings_TrimSpace I c) = 0 then Partition_string_loop I visit versions files result notes
      else if HasSuffix filePath notesFileSuffix then
        (case path_Match notesFileParentGlob filePath of
           (matched, Some err) \<Rightarrow> Done (result, notes, Some err)
         | (matched, None) \<Rightarrow>
             if matched then Partition_string_loop I visit versions files result c
             else Partition_string_loop I visit versions files result notes)
      else
        (case sort_manifestFile I visit
                \<lparr>entries = util_SplitManifests I c, path = filePath, apis = versions\<rparr> result of
           Panic \<Rightarrow> Panic
         | Done (result', Some err) \<Rightarrow> Done (result', notes, Some err)
         | Done (result', None) \<Rightarrow> Partition_string_loop I visit versions files result' notes))"

definition Partition_string ::
  "('e, 'p) externals \<Rightarrow> range_order \<Rightarrow> (string \<times> string) list \<Rightarrow> string set
     \<Rightarrow> SortOrder
     \<Rightarrow> (('e, 'p) Hook list \<times> Manifest list \<times> string \<times> error option) run" where
  "Partition_string I visit files versions order =
     (case Partition_string_loop I visit versions files \<lparr>hooks = [], generic = []\<rparr> [] of
        Panic \<Rightarrow> Panic
      | Done (result, notes, Some err) \<Rightarrow> Done (hooks result, generic result, notes, Some err)
      | Done (result, notes, None) \<Rightarrow>
          Done (hooks result, sortByKind I (generic result) order, notes, None))"

text \<open>
  \<^verbatim>\<open>FlattenManifests\<close>: the buffer after the loop has written every manifest.
\<close>

definition FlattenManifests :: "Manifest list \<Rightarrow> string" where
  "FlattenManifests manifests =
     fold (\<lambda>m b. b @ (''\<newline>---\<newline># Source: '' @ Manifest.Name m @ ''\<newline>'') @ Content m)
       manifests []"

section \<open>The manifest splitter and the kind sorter\<close>

text \<open>
  Trimming and lower case on ASCII only: the six ASCII white-space bytes, the letters A
  to Z. On a text of ASCII bytes they give what \<^verbatim>\<open>strings.TrimSpace\<close> and
  \<^verbatim>\<open>strings.ToLower\<close> give. They serve the splitter modelled below and the example
  instance of the parameters, whose texts are ASCII; the functions of package manifest
  do not use them.
\<close>

definition isSpace :: "char \<Rightarrow> bool" where
  "isSpace c \<longleftrightarrow> c \<in> {CHR 0x09, CHR 0x0A, CHR 0x0B, CHR 0x0C, CHR 0x0D, CHR '' ''}"

definition ascii_TrimSpace :: "string \<Rightarrow> string" where
  "ascii_TrimSpace s = rev (dropWhile isSpace (rev (dropWhile isSpace s)))"

fun toLower_byte :: "char \<Rightarrow> char" where
  "toLower_byte (Char b0 b1 b2 b3 b4 b5 b6 b7) =
     (let n = (of_char (Char b0 b1 b2 b3 b4 b5 b6 b7) :: nat)
      in if 65 \<le> n \<and> n \<le> 90 then Char b0 b1 b2 b3 b4 True b6 b7
         else Char b0 b1 b2 b3 b4 b5 b6 b7)"

definition ascii_ToLower :: "string \<Rightarrow> string" where
  "ascii_ToLower s = map toLower_byte s"

text \<open>
  Modelled from the spec: \<^verbatim>\<open>util.SplitManifests\<close>, the manifest splitter, which is
  not among the sources. The spec says that it splits the raw text of one file, which
  may hold several YAML documents separated by \<^verbatim>\<open>---\<close>, into the list of the
  documents. Here the text is trimmed and cut into lines; a line that begins with
  \<^verbatim>\<open>---\<close> starts a new document, whose first line is the rest of that line; every
  document is the join of its lines, trimmed, and empty documents are left out. The list
  is in the order of the text.
\<close>

fun split_docs :: "string list \<Rightarrow> string list list" where
  "split_docs [] = [[]]"
| "split_docs (l # ls) =
     (case split_docs ls of
        [] \<Rightarrow> [[l]]
      | g # gs \<Rightarrow> if HasPrefix l ''---'' then [] # (drop 3 l # g) # gs else (l # g) # gs)"

definition SplitManifests :: "string \<Rightarrow> string list" where
  "SplitManifests bigFile =
     filter (\<lambda>d. d \<noteq> [])
       (map (\<lambda>g. ascii_TrimSpace (intercalate ''\<newline>'' g))
          (split_docs (Split (ascii_TrimSpace bigFile) CHR ''\<newline>'')))"

text \<open>
  Modelled from the spec: \<^verbatim>\<open>sortByKind\<close>, the kind sorter, which is not among the
  sources. The spec says that it orders the manifests by the priority that a fixed table
  gives to their kind, lower first for the install order and with the comparison
  reversed for the uninstall order, that a kind outside the table gets a default
  priority, and that the sort is stable. The table and the default are parameters.
\<close>

definition sortByKind_spec ::
  "(string \<rightharpoonup> nat) \<Rightarrow> nat \<Rightarrow> Manifest list \<Rightarrow> SortOrder \<Rightarrow> Manifest list" where
  "sortByKind_spec table unknown manifests order =
     (let priority = (\<lambda>m. case table (SimpleHead.Kind (Head m)) of
                            Some p \<Rightarrow> int p | None \<Rightarrow> int unknown)
      in case order of
           InstallOrder \<Rightarrow> sort_key priority manifests
         | UninstallOrder \<Rightarrow> sort_key (\<lambda>m. - priority m) manifests)"

section \<open>Example inputs\<close>

text \<open>
  Modelled from the spec: hook events and delete policies with the names that the spec
  gives them, and tables and annotation keys as the comments of \<^verbatim>\<open>sort\<close> write
  them; the tables themselves are in package \<^verbatim>\<open>hooks\<close>, which is not among the
  sources. They serve as a concrete instance of the parameters.
\<close>

datatype Hook_Event = PRE_INSTALL | POST_INSTALL | PRE_UPGRADE | POST_UPGRADE

datatype Hook_DeletePolicy = SUCCEEDED | FAILED | BEFORE_HOOK_CREATION

definition example_Events :: "string \<rightharpoonup> Hook_Event" where
  "example_Events =
     [''pre-install'' \<mapsto> PRE_INSTALL, ''post-install'' \<mapsto> POST_INSTALL,
      ''pre-upgrade'' \<mapsto> PRE_UPGRADE, ''post-upgrade'' \<mapsto> POST_UPGRADE]"

definition example_DeletePolices :: "string \<rightharpoonup> Hook_DeletePolicy" where
  "example_DeletePolices =
     [''hook-succeeded'' \<mapsto> SUCCEEDED, ''hook-failed'' \<mapsto> FAILED,
      ''before-hook-creation'' \<mapsto> BEFORE_HOOK_CREATION]"

text \<open>
  Heads of example documents: one without metadata, one with annotations but no hook
  type, and hooks with the given hook types, delete policies and weight.
\<close>

definition head_plain :: "string \<Rightarrow> SimpleHead" where
  "head_plain kind = \<lparr>Version = ''v1'', Kind = kind, Metadata = None\<rparr>"

definition head_annotated :: "string \<Rightarrow> (string \<times> string) list \<Rightarrow> SimpleHead" where
  "head_annotated kind anns =
     \<lparr>Version = ''v1'', Kind = kind,
      Metadata = Some \<lparr>Metadata.Name = ''example'', Annotations = Some anns\<rparr>\<rparr>"

definition doc_plain :: string where
  "doc_plain = ''kind: ConfigMap''"

definition doc_labelled :: string where
  "doc_labelled = ''kind: Secret # annotations: {owner: team}''"

definition doc_hook :: string where
  "doc_hook = ''kind: Job # helm.sh/hook: pre-install, Post-Upgrade ,pre-install''"

definition doc_bogus :: string where
  "doc_bogus = ''kind: Job # helm.sh/hook: pre-install,bogus''"

definition doc_heavy :: string where
  "doc_heavy = ''kind: Job # helm.sh/hook-weight: 2147483648''"

definition doc_malformed :: string where
  "doc_malformed = ''kind: [''"

definition head_hook :: SimpleHead where
  "head_hook = head_annotated ''Job''
     [(''helm.sh/hook'', ''pre-install, Post-Upgrade ,pre-install''),
      (''helm.sh/hook-delete-policy'', ''hook-succeeded,bogus''),
      (''helm.sh/hook-weight'', ''-5'')]"

definition head_bogus :: SimpleHead where
  "head_bogus = head_annotated ''Job''
     [(''helm.sh/hook'', ''pre-install,bogus''), (''helm.sh/hook-weight'', ''abc'')]"

definition head_heavy :: SimpleHead where
  "head_heavy = head_annotated ''Job''
     [(''helm.sh/hook'', ''pre-install''), (''helm.sh/hook-weight'', ''2147483648'')]"

text \<open>
  A stand-in for the YAML library on the example documents (the text of a document
  abbreviates its YAML): each parses into the head given for it, any other text is a
  parse error.
\<close>

definition example_Unmarshal :: "string \<Rightarrow> string + SimpleHead" where
  "example_Unmarshal m =
     (if m = doc_plain then Inr (head_plain ''ConfigMap'')
      else if m = doc_labelled then Inr (head_annotated ''Secret'' [(''owner'', ''team'')])
      else if m = doc_hook then Inr head_hook
      else if m = doc_bogus then Inr head_bogus
      else if m = doc_heavy then Inr head_heavy
      else Inl ''did not find expected node content'')"

text \<open>
  The example instance splits a file at the byte \<^verbatim>\<open>|\<close>, leaves the generic
  manifests in the order of discovery, and trims and lowers ASCII (the example texts are
  ASCII). Two orders of visiting the entries of a file: the order of the list, and the
  reverse order.
\<close>

definition example_externals :: "(Hook_Event, Hook_DeletePolicy) externals" where
  "example_externals =
     \<lparr>yaml_Unmarshal = example_Unmarshal,
      util_SplitManifests = (\<lambda>c. Split c CHR ''|''),
      sortByKind = (\<lambda>manifests order. manifests),
      hooks_HookAnno = ''helm.sh/hook'',
      hooks_HookWeightAnno = ''helm.sh/hook-weight'',
      hooks_HookDeleteAnno = ''helm.sh/hook-delete-policy'',
      hooks_Events = example_Events,
      hooks_DeletePolices = example_DeletePolices,
      strings_TrimSpace = ascii_TrimSpace,
      strings_ToLower = ascii_ToLower\<rparr>"

definition in_order :: range_order where
  "in_order p es = es"

definition in_reverse :: range_order where
  "in_reverse p es = rev es"

definition example_file :: manifestFile where
  "example_file = \<lparr>entries = [], path = ''parent/templates/job.yaml'', apis = {}\<rparr>"

definition empty_result :: "('e, 'p) result" where
  "empty_result = \<lparr>hooks = [], generic = []\<rparr>"

text \<open>
  A second instance for texts that \<^verbatim>\<open>FlattenManifests\<close> has written: the splitter
  and the sorter are the models above, and the stand-in for the YAML library also knows
  the two example documents under a \<^verbatim>\<open># Source:\<close> comment line.
\<close>

definition manifest_cm :: Manifest where
  "manifest_cm = \<lparr>Manifest.Name = ''parent/templates/cm.yaml'', Content = doc_plain,
                   Head = head_plain ''ConfigMap''\<rparr>"

definition manifest_secret :: Manifest where
  "manifest_secret = \<lparr>Manifest.Name = ''parent/templates/secret.yaml'', Content = doc_labelled,
                       Head = head_annotated ''Secret'' [(''owner'', ''team'')]\<rparr>"

definition doc_sourced_cm :: string where
  "doc_sourced_cm = ''# Source: parent/templates/cm.yaml\<newline>kind: ConfigMap''"

definition doc_sourced_secret :: string where
  "doc_sourced_secret =
     ''# Source: parent/templates/secret.yaml\<newline>kind: Secret # annotations: {owner: team}''"

definition flattened_Unmarshal :: "string \<Rightarrow> string + SimpleHead" where
  "flattened_Unmarshal m =
     (if m = doc_sourced_cm then Inr (head_plain ''ConfigMap'')
      else if m = doc_sourced_secret then Inr (head_annotated ''Secret'' [(''owner'', ''team'')])
      else example_Unmarshal m)"

definition example_priority :: "string \<rightharpoonup> nat" where
  "example_priority = [''Secret'' \<mapsto> 1, ''ConfigMap'' \<mapsto> 2]"

definition flattened_externals :: "(Hook_Event, Hook_DeletePolicy) externals" where
  "flattened_externals =
     example_externals
       \<lparr>yaml_Unmarshal := flattened_Unmarshal,
        util_SplitManifests := SplitManifests,
        sortByKind := sortByKind_spec example_priority 3\<rparr>"

section \<open>Properties of the readiness predicates\<close>

lemma isPodReady_loop_iff:
  "isPodReady_loop cs \<longleftrightarrow>
     (\<exists>c \<in> set cs. PodCondition.Type c = PodReady \<and> PodCondition.Status c = ConditionTrue)"
  by (induction cs) auto

lemma isPodReady_iff:
  "isPodReady pod \<longleftrightarrow>
     (\<exists>c \<in> set (Conditions (Pod.Status pod)).
        PodCondition.Type c = PodReady \<and> PodCondition.Status c = ConditionTrue)"
  by (cases "Conditions (Pod.Status pod)") (simp_all add: isPodReady_def isPodReady_loop_iff)

lemma podsReady_iff: "podsReady pods \<longleftrightarrow> (\<forall>pod \<in> set pods. isPodReady pod)"
  by (induction pods) auto

text \<open>
  Claim C9. The pod-readiness check returns true exactly when every Pod of the list has
  at least one status condition with type Ready and status True, wherever that condition
  stands in the conditions list (any conditions \<open>before\<close> and \<open>after\<close> it); a Pod
  with no conditions is not ready, and the empty Pod list is ready.
\<close>

theorem podsReady_all_have_ready_condition:
  "(podsReady pods \<longleftrightarrow>
      (\<forall>pod \<in> set pods. \<exists>c \<in> set (Conditions (Pod.Status pod)).
          PodCondition.Type c = PodReady \<and> PodCondition.Status c = ConditionTrue))
   \<and> isPodReady (pod_with (before @ \<lparr>PodCondition.Type = PodReady,
                                       PodCondition.Status = ConditionTrue\<rparr> # after))
   \<and> \<not> isPodReady (pod_with [])
   \<and> \<not> podsReady (pod_with [] # pods)
   \<and> podsReady []"
  by (simp add: podsReady_iff isPodReady_iff pod_with_def)

theorem podsReady_all_have_ready_condition_witness:
  "podsReady [pod_with [cond_ready_false, cond_ready_true], pod_with [cond_ready_true]]
   \<and> \<not> podsReady [pod_with [cond_ready_true], pod_with [cond_ready_false]]"
proof -
  let ?pods = "[pod_with [cond_ready_false, cond_ready_true], pod_with [cond_ready_true]]"
  let ?pods' = "[pod_with [cond_ready_true], pod_with [cond_ready_false]]"
  have every: "\<forall>pod \<in> set ?pods. \<exists>c \<in> set (Conditions (Pod.Status pod)).
      PodCondition.Type c = PodReady \<and> PodCondition.Status c = ConditionTrue"
    by (simp add: pod_with_def cond_ready_false_def cond_ready_true_def PodReady_def
        ConditionTrue_def)
  have some_not: "\<not> (\<forall>pod \<in> set ?pods'. \<exists>c \<in> set (Conditions (Pod.Status pod)).
      PodCondition.Type c = PodReady \<and> PodCondition.Status c = ConditionTrue)"
    by (simp add: pod_with_def cond_ready_false_def cond_ready_true_def PodReady_def
        ConditionTrue_def)
  from podsReady_all_have_ready_condition [of ?pods "[]" "[]"] every
  have "podsReady ?pods" by blast
  moreover from podsReady_all_have_ready_condition [of ?pods' "[]" "[]"] some_not
  have "\<not> podsReady ?pods'" by blast
  ultimately show ?thesis by blast
qed

lemma servicesReady_iff:
  "servicesReady svc \<longleftrightarrow>
     (\<forall>s \<in> set svc. ServiceSpec.Type (Spec s) \<noteq> ServiceTypeExternalName \<longrightarrow>
        (ClusterIP (Spec s) \<noteq> [] \<or> ClusterIP (Spec s) = ClusterIPNone)
        \<and> (ServiceSpec.Type (Spec s) = ServiceTypeLoadBalancer \<longrightarrow>
             Ingress (LoadBalancer (Service.Status s)) \<noteq> None))"
  by (induction svc) (auto simp: ClusterIPNone_def)

text \<open>
  Away from one kind of input the check computes what the claim says: when no
  LoadBalancer Service of the list has an ingress slice that is allocated but empty, the
  check returns true exactly when every Service that is not of type ExternalName has a
  clusterIP that is non-empty or the "None" sentinel and, when of type LoadBalancer, at
  least one ingress entry.
\<close>

lemma servicesReady_as_claimed:
  assumes "\<forall>s \<in> set svc. ServiceSpec.Type (Spec s) = ServiceTypeLoadBalancer
      \<longrightarrow> Ingress (LoadBalancer (Service.Status s)) \<noteq> Some []"
  shows "servicesReady svc \<longleftrightarrow>
     (\<forall>s \<in> set svc. ServiceSpec.Type (Spec s) \<noteq> ServiceTypeExternalName \<longrightarrow>
        (ClusterIP (Spec s) \<noteq> [] \<or> ClusterIP (Spec s) = ClusterIPNone)
        \<and> (ServiceSpec.Type (Spec s) = ServiceTypeLoadBalancer \<longrightarrow>
             (\<exists>e es. Ingress (LoadBalancer (Service.Status s)) = Some (e # es))))"
proof -
  have "Ingress (LoadBalancer (Service.Status s)) \<noteq> None
      \<longleftrightarrow> (\<exists>e es. Ingress (LoadBalancer (Service.Status s)) = Some (e # es))"
    if "s \<in> set svc" "ServiceSpec.Type (Spec s) = ServiceTypeLoadBalancer" for s
  proof -
    from that assms have "Ingress (LoadBalancer (Service.Status s)) \<noteq> Some []" by blast
    then show ?thesis
      by (cases "Ingress (LoadBalancer (Service.Status s))") (auto simp: neq_Nil_conv)
  qed
  then show ?thesis
    unfolding servicesReady_iff by blast
qed

text \<open>
  Claim C3. The claim asks, for a LoadBalancer Service, that at least one ingress entry
  be present, and so does the comment of the code (the balancer "has an Ingress
  defined"). The check compares the ingress slice with \<^verbatim>\<open>nil\<close> only. At the input
  of one LoadBalancer Service with a cluster IP whose ingress slice is allocated but
  holds no entry, the claim says that the list is not ready, and the check returns true.
\<close>

theorem servicesReady_empty_ingress_slice:
  "servicesReady [service_with ''LoadBalancer'' ''10.0.0.1'' (Some [])]
   \<and> ServiceSpec.Type (Spec (service_with ''LoadBalancer'' ''10.0.0.1'' (Some [])))
       = ServiceTypeLoadBalancer
   \<and> Ingress (LoadBalancer (Service.Status
         (service_with ''LoadBalancer'' ''10.0.0.1'' (Some [])))) = Some []"
  by (simp add: service_with_def ServiceTypeExternalName_def ServiceTypeLoadBalancer_def
      ClusterIPNone_def)

section \<open>Properties of the rounds of sort\<close>

lemma hookTypes_loop_resolved:
  "\<forall>t \<in> set ts. hooks_Events I (strings_ToLower I (strings_TrimSpace I t)) \<noteq> None \<Longrightarrow>
   hookTypes_loop I ts h =
     (h\<lparr>Events := Events h @ map (\<lambda>t. the (hooks_Events I (strings_ToLower I (strings_TrimSpace I t)))) ts\<rparr>, False)"
  by (induction ts arbitrary: h) auto


lemma fold_delete_policy_operate:
  "fold (\<lambda>dp. delete_policy_operate I (strings_ToLower I (strings_TrimSpace I dp))) ts h =
     h\<lparr>DeletePolicies := DeletePolicies h @
        List.map_filter (\<lambda>dp. hooks_DeletePolices I (strings_ToLower I (strings_TrimSpace I dp))) ts\<rparr>"
  by (induction ts arbitrary: h)
     (auto simp: delete_policy_operate_def List.map_filter_simps split: option.splits)

lemma index_ok_Some_hasAnyAnnotation:
  "Metadata entry = Some md \<Longrightarrow> index_ok (Annotations md) k = Some v \<Longrightarrow> hasAnyAnnotation entry"
  by (auto simp: hasAnyAnnotation_def index_ok_def split: option.splits)

lemma calculateHookWeight_Some:
  "Metadata entry = Some md \<Longrightarrow>
   calculateHookWeight I entry =
     Done (word_of_int (case Atoi (index (Annotations md) (hooks_HookWeightAnno I)) of
                          None \<Rightarrow> 0 | Some n \<Rightarrow> n))"
  by (simp add: calculateHookWeight_def)


lemma sort_entry_hook:
  assumes "yaml_Unmarshal I m = Inr entry" "Metadata entry = Some md"
    "index_ok (Annotations md) (hooks_HookAnno I) = Some hookTypes"
    "\<forall>t \<in> set (Split hookTypes CHR '',''). hooks_Events I (strings_ToLower I (strings_TrimSpace I t)) \<noteq> None"
  shows "sort_entry I file m result =
     Continue (result\<lparr>hooks := hooks result @
       [\<lparr>Hook.Name = Metadata.Name md, Kind = SimpleHead.Kind entry, Path = path file,
         Manifest = m,
         Events = map (\<lambda>t. the (hooks_Events I (strings_ToLower I (strings_TrimSpace I t))))
                    (Split hookTypes CHR '',''),
         Weight = word_of_int
           (case Atoi (index (Annotations md) (hooks_HookWeightAnno I)) of
              None \<Rightarrow> 0 | Some n \<Rightarrow> n),
         DeletePolicies =
           (case index_ok (Annotations md) (hooks_HookDeleteAnno I) of
              None \<Rightarrow> []
            | Some dps \<Rightarrow>
                List.map_filter (\<lambda>dp. hooks_DeletePolices I (strings_ToLower I (strings_TrimSpace I dp)))
                  (Split dps CHR '',''))\<rparr>]\<rparr>)"
proof -
  have ann: "hasAnyAnnotation entry"
    using assms(2,3) by (rule index_ok_Some_hasAnyAnnotation)
  show ?thesis
    using assms(1-3) ann
    by (simp add: sort_entry_def calculateHookWeight_Some hookTypes_loop_resolved [OF assms(4)]
        operateAnnotationValues_def fold_delete_policy_operate split: option.splits)
qed

lemma sort_entry_generic:
  assumes "yaml_Unmarshal I m = Inr entry"
    "case Metadata entry of None \<Rightarrow> True
     | Some md \<Rightarrow> index_ok (Annotations md) (hooks_HookAnno I) = None"
  shows "sort_entry I file m result =
     Continue (result\<lparr>generic := generic result @
       [\<lparr>Manifest.Name = path file, Content = m, Head = entry\<rparr>]\<rparr>)"
  using assms by (auto simp: sort_entry_def hasAnyAnnotation_def split: option.splits)


lemma sint_int32_in_range:
  "- (2 ^ 31) \<le> n \<Longrightarrow> n < 2 ^ 31 \<Longrightarrow> sint (word_of_int n :: 32 word) = n"
  by (simp add: sint_sbintrunc' signed_take_bit_int_eq_self)

text \<open>
  Claim C7. A document whose parsed head has no metadata, a nil or empty annotation map,
  or annotations without the hook-type key: the round for it neither panics nor returns
  an error, appends no hook, and appends one generic manifest whose name is the path of
  the file and whose content is the text of the document.
\<close>

theorem sort_entry_without_hook_type_is_generic:
  assumes "yaml_Unmarshal I m = Inr entry"
    and "Metadata entry = None
         \<or> (\<exists>md. Metadata entry = Some md
               \<and> (Annotations md = None \<or> Annotations md = Some []
                  \<or> (\<exists>anns. Annotations md = Some anns
                        \<and> map_of anns (hooks_HookAnno I) = None)))"
  shows "sort_entry I file m result =
     Continue (result\<lparr>generic := generic result @
       [\<lparr>Manifest.Name = path file, Content = m, Head = entry\<rparr>]\<rparr>)"
proof (rule sort_entry_generic [OF assms(1)])
  show "case Metadata entry of None \<Rightarrow> True
        | Some md \<Rightarrow> index_ok (Annotations md) (hooks_HookAnno I) = None"
    using assms(2) by (auto simp: index_ok_def split: option.splits)
qed

theorem sort_entry_without_hook_type_is_generic_witness:
  "sort_entry example_externals example_file doc_plain empty_result =
     Continue \<lparr>hooks = [], generic =
       [\<lparr>Manifest.Name = ''parent/templates/job.yaml'', Content = doc_plain,
         Head = head_plain ''ConfigMap''\<rparr>]\<rparr>
   \<and> sort_entry example_externals example_file doc_labelled empty_result =
     Continue \<lparr>hooks = [], generic =
       [\<lparr>Manifest.Name = ''parent/templates/job.yaml'', Content = doc_labelled,
         Head = head_annotated ''Secret'' [(''owner'', ''team'')]\<rparr>]\<rparr>"
proof -
  have p1: "yaml_Unmarshal example_externals doc_plain = Inr (head_plain ''ConfigMap'')"
    by (simp add: example_externals_def example_Unmarshal_def)
  have m1: "Metadata (head_plain ''ConfigMap'') = None"
    by (simp add: head_plain_def)
  have p2: "yaml_Unmarshal example_externals doc_labelled =
      Inr (head_annotated ''Secret'' [(''owner'', ''team'')])"
    by (simp add: example_externals_def example_Unmarshal_def doc_labelled_def doc_plain_def)
  have m2: "\<exists>md. Metadata (head_annotated ''Secret'' [(''owner'', ''team'')]) = Some md
      \<and> (Annotations md = None \<or> Annotations md = Some []
         \<or> (\<exists>anns. Annotations md = Some anns
               \<and> map_of anns (hooks_HookAnno example_externals) = None))"
    by (simp add: head_annotated_def example_externals_def)
  have h1: "Metadata (head_plain ''ConfigMap'') = None
      \<or> (\<exists>md. Metadata (head_plain ''ConfigMap'') = Some md
            \<and> (Annotations md = None \<or> Annotations md = Some []
               \<or> (\<exists>anns. Annotations md = Some anns
                     \<and> map_of anns (hooks_HookAnno example_externals) = None)))"
    using m1 by (rule disjI1)
  note sort_entry_without_hook_type_is_generic [OF p1 h1, of example_file empty_result]
    sort_entry_without_hook_type_is_generic [OF p2 disjI2 [OF m2], of example_file empty_result]
  then show ?thesis
    by (simp add: empty_result_def example_file_def)
qed



lemma example_hook_types:
  "map (\<lambda>t. strings_ToLower example_externals (strings_TrimSpace example_externals t)) (Split ''pre-install, Post-Upgrade ,pre-install'' CHR '','')
     = [''pre-install'', ''post-upgrade'', ''pre-install'']"
  by (simp add: example_externals_def ascii_ToLower_def ascii_TrimSpace_def isSpace_def)


lemma example_parse_hook: "yaml_Unmarshal example_externals doc_hook = Inr head_hook"
  by (simp add: example_externals_def example_Unmarshal_def doc_hook_def doc_plain_def
      doc_labelled_def)



text \<open>
  Claim C2. A document that becomes a hook (every hook-type token is in the table of
  events): the round appends the hook whatever the delete-policy annotation holds. The
  delete policies of the hook are those of the tokens of the annotation (split at commas,
  trimmed, in lower case) that the table of delete policies holds, in the order of the
  tokens; a token that the table does not hold is left out on its own. Without the
  annotation the hook has no delete policy.
\<close>

theorem sort_entry_delete_policies_per_token:
  assumes "yaml_Unmarshal I m = Inr entry" and "Metadata entry = Some md"
    and "index_ok (Annotations md) (hooks_HookAnno I) = Some hookTypes"
    and "\<forall>t \<in> set (Split hookTypes CHR '',''). hooks_Events I (strings_ToLower I (strings_TrimSpace I t)) \<noteq> None"
  shows "\<exists>h. sort_entry I file m result = Continue (result\<lparr>hooks := hooks result @ [h]\<rparr>)
      \<and> DeletePolicies h =
          (case index_ok (Annotations md) (hooks_HookDeleteAnno I) of
             None \<Rightarrow> []
           | Some dps \<Rightarrow>
               map (\<lambda>t. the (hooks_DeletePolices I t))
                 (filter (\<lambda>t. hooks_DeletePolices I t \<noteq> None)
                    (map (\<lambda>dp. strings_ToLower I (strings_TrimSpace I dp)) (Split dps CHR '',''))))"
proof -
  note hook = sort_entry_hook [OF assms, of "file" "result"]
  show ?thesis
    by (rule exI, rule conjI, rule hook)
       (simp add: List.map_filter_def comp_def filter_map split: option.splits)
qed

theorem sort_entry_delete_policies_per_token_witness:
  "\<exists>h. sort_entry example_externals example_file doc_hook empty_result =
          Continue (empty_result\<lparr>hooks := hooks empty_result @ [h]\<rparr>)
        \<and> DeletePolicies h = [SUCCEEDED]"
proof -
  let ?md = "\<lparr>Metadata.Name = ''example'', Annotations = Some
      [(''helm.sh/hook'', ''pre-install, Post-Upgrade ,pre-install''),
       (''helm.sh/hook-delete-policy'', ''hook-succeeded,bogus''),
       (''helm.sh/hook-weight'', ''-5'')]\<rparr>"
  have md: "Metadata head_hook = Some ?md"
    by (simp add: head_hook_def head_annotated_def)
  have ix: "index_ok (Annotations ?md) (hooks_HookAnno example_externals)
      = Some ''pre-install, Post-Upgrade ,pre-install''"
    by (simp add: index_ok_def example_externals_def)
  have "\<forall>t \<in> set (map (\<lambda>t. strings_ToLower example_externals (strings_TrimSpace example_externals t))
         (Split ''pre-install, Post-Upgrade ,pre-install'' CHR '','')).
       hooks_Events example_externals t \<noteq> None"
    unfolding example_hook_types by (simp add: example_externals_def example_Events_def)
  then have known: "\<forall>t \<in> set (Split ''pre-install, Post-Upgrade ,pre-install'' CHR '','').
       hooks_Events example_externals (strings_ToLower example_externals (strings_TrimSpace example_externals t)) \<noteq> None"
    by simp
  have policies: "(case index_ok (Annotations ?md) (hooks_HookDeleteAnno example_externals) of
             None \<Rightarrow> []
           | Some dps \<Rightarrow>
               map (\<lambda>t. the (hooks_DeletePolices example_externals t))
                 (filter (\<lambda>t. hooks_DeletePolices example_externals t \<noteq> None)
                    (map (\<lambda>dp. strings_ToLower example_externals (strings_TrimSpace example_externals dp)) (Split dps CHR '','')))) = [SUCCEEDED]"
    by (simp add: index_ok_def example_externals_def example_DeletePolices_def
        example_externals_def ascii_ToLower_def ascii_TrimSpace_def isSpace_def)
  from sort_entry_delete_policies_per_token
    [OF example_parse_hook md ix known, of example_file empty_result]
  show ?thesis unfolding policies .
qed

text \<open>
  Claim C8, as the claim states it, at one input: a hook document whose weight
  annotation is the decimal numeral 2147483648. The annotation parses as that integer,
  and the weight of the hook is the 32-bit value -2147483648.
\<close>

theorem calculateHookWeight_int32_counterexample:
  "Atoi ''2147483648'' = Some 2147483648
   \<and> sort_entry example_externals example_file doc_heavy empty_result =
       Continue \<lparr>hooks = [\<lparr>Hook.Name = ''example'', Kind = ''Job'',
                           Path = ''parent/templates/job.yaml'', Manifest = doc_heavy,
                           Events = [PRE_INSTALL], Weight = word_of_int 2147483648,
                           DeletePolicies = []\<rparr>],
                 generic = []\<rparr>
   \<and> sint (word_of_int 2147483648 :: 32 word) = - 2147483648"
  by (simp add: Atoi_def isDigit_def digit_val_def sort_entry_def example_externals_def
      example_Unmarshal_def doc_heavy_def doc_plain_def doc_labelled_def doc_hook_def
      doc_bogus_def head_heavy_def head_annotated_def hasAnyAnnotation_def index_ok_def
      index_def calculateHookWeight_def example_Events_def ascii_ToLower_def ascii_TrimSpace_def
      isSpace_def operateAnnotationValues_def example_file_def empty_result_def)

text \<open>
  Claim C8, amended. For every hook document, the weight of the hook is the 32-bit
  two's complement value of the integer that the hook-weight annotation parses as; it is
  that integer itself when it lies between -2147483648 and 2147483647, and it is 0 when
  the annotation is absent or does not parse as an integer. The value "-5" parses as -5
  and "abc" does not parse.
\<close>

theorem sort_entry_hook_weight_int32:
  assumes "yaml_Unmarshal I m = Inr entry" and "Metadata entry = Some md"
    and "index_ok (Annotations md) (hooks_HookAnno I) = Some hookTypes"
    and "\<forall>t \<in> set (Split hookTypes CHR '',''). hooks_Events I (strings_ToLower I (strings_TrimSpace I t)) \<noteq> None"
  shows "(\<exists>h. sort_entry I file m result = Continue (result\<lparr>hooks := hooks result @ [h]\<rparr>)
      \<and> (case index_ok (Annotations md) (hooks_HookWeightAnno I) of
            None \<Rightarrow> Weight h = 0
          | Some hws \<Rightarrow>
              (case Atoi hws of
                 None \<Rightarrow> Weight h = 0
               | Some n \<Rightarrow> Weight h = word_of_int n
                   \<and> (- (2 ^ 31) \<le> n \<and> n < 2 ^ 31 \<longrightarrow> sint (Weight h) = n))))
    \<and> Atoi ''-5'' = Some (- 5) \<and> Atoi ''abc'' = None"
proof -
  note hook = sort_entry_hook [OF assms, of "file" "result"]
  have "Atoi [] = None" by (simp add: Atoi_def)
  then have "\<exists>h. sort_entry I file m result = Continue (result\<lparr>hooks := hooks result @ [h]\<rparr>)
      \<and> (case index_ok (Annotations md) (hooks_HookWeightAnno I) of
            None \<Rightarrow> Weight h = 0
          | Some hws \<Rightarrow>
              (case Atoi hws of
                 None \<Rightarrow> Weight h = 0
               | Some n \<Rightarrow> Weight h = word_of_int n
                   \<and> (- (2 ^ 31) \<le> n \<and> n < 2 ^ 31 \<longrightarrow> sint (Weight h) = n)))"
    by - (rule exI, rule conjI, rule hook,
          simp add: index_def sint_int32_in_range split: option.splits)
  moreover have "Atoi ''-5'' = Some (- 5)" "Atoi ''abc'' = None"
    by (simp_all add: Atoi_def isDigit_def digit_val_def)
  ultimately show ?thesis by simp
qed

theorem sort_entry_hook_weight_int32_witness:
  "\<exists>h. sort_entry example_externals example_file doc_hook empty_result =
          Continue (empty_result\<lparr>hooks := hooks empty_result @ [h]\<rparr>)
        \<and> Weight h = word_of_int (- 5) \<and> sint (Weight h) = - 5"
proof -
  let ?md = "\<lparr>Metadata.Name = ''example'', Annotations = Some
      [(''helm.sh/hook'', ''pre-install, Post-Upgrade ,pre-install''),
       (''helm.sh/hook-delete-policy'', ''hook-succeeded,bogus''),
       (''helm.sh/hook-weight'', ''-5'')]\<rparr>"
  have md: "Metadata head_hook = Some ?md"
    by (simp add: head_hook_def head_annotated_def)
  have ix: "index_ok (Annotations ?md) (hooks_HookAnno example_externals)
      = Some ''pre-install, Post-Upgrade ,pre-install''"
    by (simp add: index_ok_def example_externals_def)
  have "\<forall>t \<in> set (map (\<lambda>t. strings_ToLower example_externals (strings_TrimSpace example_externals t))
         (Split ''pre-install, Post-Upgrade ,pre-install'' CHR '','')).
       hooks_Events example_externals t \<noteq> None"
    unfolding example_hook_types by (simp add: example_externals_def example_Events_def)
  then have known: "\<forall>t \<in> set (Split ''pre-install, Post-Upgrade ,pre-install'' CHR '','').
       hooks_Events example_externals (strings_ToLower example_externals (strings_TrimSpace example_externals t)) \<noteq> None"
    by simp
  have wx: "index_ok (Annotations ?md) (hooks_HookWeightAnno example_externals) = Some ''-5''"
    by (simp add: index_ok_def example_externals_def)
  have five: "Atoi ''-5'' = Some (- 5)"
    by (simp add: Atoi_def isDigit_def digit_val_def)
  note C8 = sort_entry_hook_weight_int32
    [OF example_parse_hook md ix known, of example_file empty_result]
  from C8 [THEN conjunct1, unfolded wx option.case five]
  obtain h where h: "sort_entry example_externals example_file doc_hook empty_result =
      Continue (empty_result\<lparr>hooks := hooks empty_result @ [h]\<rparr>)"
    "Weight h = word_of_int (- 5)"
    "- (2 ^ 31) \<le> (- 5 :: int) \<and> (- 5 :: int) < 2 ^ 31 \<longrightarrow> sint (Weight h) = - 5"
    by blast
  from h(3) have "sint (Weight h) = - 5" by simp
  with h(1,2) show ?thesis by blast
qed

section \<open>Properties of the loops of sort and Partition\<close>

lemma sort_entry_not_Panics: "sort_entry I file m result \<noteq> Panics"
  by (auto simp: sort_entry_def hasAnyAnnotation_def calculateHookWeight_def
      operateAnnotationValues_def Let_def split: sum.splits option.splits prod.splits)

lemma sort_entry_Return_iff:
  "sort_entry I file m result = Return e \<longleftrightarrow>
     (\<exists>msg. yaml_Unmarshal I m = Inl msg \<and> e = YAMLParseError (path file) msg)"
  by (auto simp: sort_entry_def hasAnyAnnotation_def calculateHookWeight_def
      operateAnnotationValues_def Let_def split: sum.splits option.splits prod.splits)

lemma sort_loop_not_Panic: "sort_loop I file ms result \<noteq> Panic"
  by (induction ms arbitrary: result) (auto simp: sort_entry_not_Panics split: round.splits)

lemma sort_loop_error_iff:
  "sort_loop I file ms result = Done (result', Some e) \<longleftrightarrow>
     (\<exists>ms1 m ms2 msg. ms = ms1 @ m # ms2
        \<and> sort_loop I file ms1 result = Done (result', None)
        \<and> yaml_Unmarshal I m = Inl msg \<and> e = YAMLParseError (path file) msg)"
proof (induction ms arbitrary: result)
  case Nil
  then show ?case by simp
next
  case (Cons a ms)
  show ?case
  proof (cases "sort_entry I file a result")
    case (Return e')
    then obtain msg where msg: "yaml_Unmarshal I a = Inl msg" "e' = YAMLParseError (path file) msg"
      by (auto simp: sort_entry_Return_iff)
    show ?thesis
    proof
      assume "sort_loop I file (a # ms) result = Done (result', Some e)"
      with Return msg have "result' = result" "e = YAMLParseError (path file) msg" by auto
      with msg show "\<exists>ms1 m ms2 msg. a # ms = ms1 @ m # ms2
        \<and> sort_loop I file ms1 result = Done (result', None)
        \<and> yaml_Unmarshal I m = Inl msg \<and> e = YAMLParseError (path file) msg"
        by (intro exI [of _ "[]"] exI [of _ a] exI [of _ ms] exI [of _ msg]) simp
    next
      assume "\<exists>ms1 m ms2 msg. a # ms = ms1 @ m # ms2
        \<and> sort_loop I file ms1 result = Done (result', None)
        \<and> yaml_Unmarshal I m = Inl msg \<and> e = YAMLParseError (path file) msg"
      then obtain ms1 m ms2 msg' where d: "a # ms = ms1 @ m # ms2"
        "sort_loop I file ms1 result = Done (result', None)"
        "yaml_Unmarshal I m = Inl msg'" "e = YAMLParseError (path file) msg'" by blast
      have "ms1 = []"
      proof (cases ms1)
        case Nil then show ?thesis .
      next
        case (Cons b bs)
        with d(1) have "b = a" by simp
        with Cons d(2) Return show ?thesis by simp
      qed
      with d Return msg show "sort_loop I file (a # ms) result = Done (result', Some e)"
        by simp
    qed
  next
    case Panics
    then show ?thesis by (simp add: sort_entry_not_Panics)
  next
    case (Continue r)
    then have notparse: "\<And>msg. yaml_Unmarshal I a \<noteq> Inl msg"
      using sort_entry_Return_iff [of I "file" a result] by auto
    show ?thesis
    proof
      assume "sort_loop I file (a # ms) result = Done (result', Some e)"
      with Continue have "sort_loop I file ms r = Done (result', Some e)" by simp
      with Cons.IH [of r] obtain ms1 m ms2 msg where d: "ms = ms1 @ m # ms2"
        "sort_loop I file ms1 r = Done (result', None)"
        "yaml_Unmarshal I m = Inl msg" "e = YAMLParseError (path file) msg" by blast
      with Continue show "\<exists>ms1 m ms2 msg. a # ms = ms1 @ m # ms2
        \<and> sort_loop I file ms1 result = Done (result', None)
        \<and> yaml_Unmarshal I m = Inl msg \<and> e = YAMLParseError (path file) msg"
        by (intro exI [of _ "a # ms1"] exI [of _ m] exI [of _ ms2] exI [of _ msg]) simp
    next
      assume "\<exists>ms1 m ms2 msg. a # ms = ms1 @ m # ms2
        \<and> sort_loop I file ms1 result = Done (result', None)
        \<and> yaml_Unmarshal I m = Inl msg \<and> e = YAMLParseError (path file) msg"
      then obtain ms1 m ms2 msg' where d: "a # ms = ms1 @ m # ms2"
        "sort_loop I file ms1 result = Done (result', None)"
        "yaml_Unmarshal I m = Inl msg'" "e = YAMLParseError (path file) msg'" by blast
      from d(1,3) notparse obtain bs where bs: "ms1 = a # bs" "ms = bs @ m # ms2"
        by (cases ms1) auto
      with d(2) Continue have "sort_loop I file bs r = Done (result', None)" by simp
      with bs d(3,4) have "sort_loop I file ms r = Done (result', Some e)"
        using Cons.IH [of r] by blast
      with Continue show "sort_loop I file (a # ms) result = Done (result', Some e)" by simp
    qed
  qed
qed


lemma sort_manifestFile_not_Panic: "sort_manifestFile I visit file result \<noteq> Panic"
  by (simp add: sort_manifestFile_def sort_loop_not_Panic)

lemma Partition_loop_skip:
  "HasPrefix (path_Base filePath) ''_'' \<or> length (strings_TrimSpace I c) = 0 \<Longrightarrow>
   Partition_loop I visit versions ((filePath, c) # files) result notes =
     Partition_loop I visit versions files result notes"
  by auto

lemma Partition_loop_notes:
  "\<not> HasPrefix (path_Base filePath) ''_'' \<Longrightarrow> length (strings_TrimSpace I c) \<noteq> 0 \<Longrightarrow>
   HasSuffix filePath notesFileSuffix \<Longrightarrow>
   Partition_loop I visit versions ((filePath, c) # files) result notes =
     Partition_loop I visit versions files result
       (notes(path_Base (path_Dir (path_Dir filePath)) \<mapsto> c))"
  by (simp add: Let_def)

lemma Partition_loop_sort:
  "\<not> HasPrefix (path_Base filePath) ''_'' \<Longrightarrow> length (strings_TrimSpace I c) \<noteq> 0 \<Longrightarrow>
   \<not> HasSuffix filePath notesFileSuffix \<Longrightarrow>
   Partition_loop I visit versions ((filePath, c) # files) result notes =
     (case sort_manifestFile I visit
             \<lparr>entries = util_SplitManifests I c, path = filePath, apis = versions\<rparr> result of
        Panic \<Rightarrow> Panic
      | Done (result', Some err) \<Rightarrow> Done (result', notes, Some err)
      | Done (result', None) \<Rightarrow> Partition_loop I visit versions files result' notes)"
  by simp

lemma Partition_loop_cases:
  obtains (skip) "HasPrefix (path_Base filePath) ''_'' \<or> length (strings_TrimSpace I c) = 0"
  | (notes_file) "\<not> HasPrefix (path_Base filePath) ''_''" "length (strings_TrimSpace I c) \<noteq> 0"
      "HasSuffix filePath notesFileSuffix"
  | (manifests) "\<not> HasPrefix (path_Base filePath) ''_''" "length (strings_TrimSpace I c) \<noteq> 0"
      "\<not> HasSuffix filePath notesFileSuffix"
  by blast

lemma Partition_loop_not_Panic: "Partition_loop I visit versions files result notes \<noteq> Panic"
proof (induction files arbitrary: result "notes")
  case Nil
  then show ?case by simp
next
  case (Cons f files)
  obtain filePath c where f: "f = (filePath, c)" by (cases f)
  show ?case
  proof (cases filePath I c rule: Partition_loop_cases)
    case skip
    show ?thesis unfolding f Partition_loop_skip [OF skip] by (rule Cons.IH)
  next
    case notes_file
    show ?thesis unfolding f Partition_loop_notes [OF notes_file] by (rule Cons.IH)
  next
    case manifests
    show ?thesis unfolding f Partition_loop_sort [OF manifests]
      by (simp add: sort_manifestFile_not_Panic Cons.IH split: run.splits option.splits)
  qed
qed

lemma Partition_loop_append:
  "Partition_loop I visit versions (files @ files') result notes =
     (case Partition_loop I visit versions files result notes of
        Panic \<Rightarrow> Panic
      | Done (result', notes', Some e) \<Rightarrow> Done (result', notes', Some e)
      | Done (result', notes', None) \<Rightarrow> Partition_loop I visit versions files' result' notes')"
proof (induction files arbitrary: result "notes")
  case Nil
  then show ?case by simp
next
  case (Cons f files)
  obtain filePath c where f: "f = (filePath, c)" by (cases f)
  show ?case
  proof (cases filePath I c rule: Partition_loop_cases)
    case skip
    show ?thesis unfolding f append_Cons Partition_loop_skip [OF skip] by (rule Cons.IH)
  next
    case notes_file
    show ?thesis unfolding f append_Cons Partition_loop_notes [OF notes_file] by (rule Cons.IH)
  next
    case manifests
    show ?thesis unfolding f append_Cons Partition_loop_sort [OF manifests]
      by (simp add: Cons.IH split: run.splits option.splits)
  qed
qed

lemma Partition_loop_error_imp:
  "Partition_loop I visit versions files result notes = Done (result', notes', Some e) \<Longrightarrow>
     \<exists>pre filePath c post r.
        files = pre @ (filePath, c) # post
        \<and> Partition_loop I visit versions pre result notes = Done (r, notes', None)
        \<and> \<not> HasPrefix (path_Base filePath) ''_'' \<and> length (strings_TrimSpace I c) \<noteq> 0
        \<and> \<not> HasSuffix filePath notesFileSuffix
        \<and> sort_manifestFile I visit
             \<lparr>entries = util_SplitManifests I c, path = filePath, apis = versions\<rparr> r
           = Done (result', Some e)"
proof (induction files arbitrary: result "notes")
  case Nil
  then show ?case by simp
next
  case (Cons f files)
  obtain filePath c where f: "f = (filePath, c)" by (cases f)
  let ?file = "\<lparr>entries = util_SplitManifests I c, path = filePath, apis = versions\<rparr>"
  let ?goal = "\<lambda>res nts. \<exists>pre fp c' post r.
        f # files = pre @ (fp, c') # post
        \<and> Partition_loop I visit versions pre res nts = Done (r, notes', None)
        \<and> \<not> HasPrefix (path_Base fp) ''_'' \<and> length (strings_TrimSpace I c') \<noteq> 0
        \<and> \<not> HasSuffix fp notesFileSuffix
        \<and> sort_manifestFile I visit
             \<lparr>entries = util_SplitManifests I c', path = fp, apis = versions\<rparr> r
           = Done (result', Some e)"
  have step: "?goal result notes"
    if tail: "Partition_loop I visit versions files r0 n0 = Done (result', notes', Some e)"
      and head: "Partition_loop I visit versions [f] result notes = Done (r0, n0, None)"
    for r0 n0
  proof -
    from Cons.IH [OF tail] obtain pre fp c' post r where d:
      "files = pre @ (fp, c') # post"
      "Partition_loop I visit versions pre r0 n0 = Done (r, notes', None)"
      "\<not> HasPrefix (path_Base fp) ''_''" "length (strings_TrimSpace I c') \<noteq> 0"
      "\<not> HasSuffix fp notesFileSuffix"
      "sort_manifestFile I visit
         \<lparr>entries = util_SplitManifests I c', path = fp, apis = versions\<rparr> r
       = Done (result', Some e)"
      by blast
    have "Partition_loop I visit versions (f # pre) result notes = Done (r, notes', None)"
      using Partition_loop_append [of I visit versions "[f]" pre result "notes"] head d(2) by simp
    with d show ?thesis
      by (intro exI [of _ "f # pre"] exI [of _ fp] exI [of _ c'] exI [of _ post] exI [of _ r])
         simp
  qed
  show ?case
  proof (cases filePath I c rule: Partition_loop_cases)
    case skip
    show ?thesis
    proof (rule step [of result "notes"])
      show "Partition_loop I visit versions files result notes = Done (result', notes', Some e)"
        using Cons.prems unfolding f Partition_loop_skip [OF skip] .
      show "Partition_loop I visit versions [f] result notes = Done (result, notes, None)"
        unfolding f Partition_loop_skip [OF skip] by simp
    qed
  next
    case notes_file
    let ?n = "notes(path_Base (path_Dir (path_Dir filePath)) \<mapsto> c)"
    show ?thesis
    proof (rule step [of result ?n])
      show "Partition_loop I visit versions files result ?n = Done (result', notes', Some e)"
        using Cons.prems unfolding f Partition_loop_notes [OF notes_file] .
      show "Partition_loop I visit versions [f] result notes = Done (result, ?n, None)"
        unfolding f Partition_loop_notes [OF notes_file] by simp
    qed
  next
    case manifests
    note unroll = Partition_loop_sort [OF manifests]
    show ?thesis
    proof (cases "sort_manifestFile I visit ?file result")
      case Panic
      then show ?thesis by (simp add: sort_manifestFile_not_Panic)
    next
      case (Done x)
      obtain r1 err where x: "x = (r1, err)" by (cases x)
      show ?thesis
      proof (cases err)
        case None
        show ?thesis
        proof (rule step [of r1 "notes"])
          show "Partition_loop I visit versions files r1 notes = Done (result', notes', Some e)"
            using Cons.prems unfolding f unroll by (simp add: Done x None)
          show "Partition_loop I visit versions [f] result notes = Done (r1, notes, None)"
            unfolding f unroll by (simp add: Done x None)
        qed
      next
        case (Some e')
        from Cons.prems have "result' = r1" "notes' = notes" "e' = e"
          unfolding f unroll by (simp_all add: Done x Some)
        with f manifests Done x Some show ?thesis
          by (intro exI [of _ "[]"] exI [of _ filePath] exI [of _ c] exI [of _ files]
              exI [of _ result]) simp
      qed
    qed
  qed
qed

lemma Partition_loop_error_if:
  assumes "Partition_loop I visit versions pre result notes = Done (r, notes', None)"
    and "\<not> HasPrefix (path_Base filePath) ''_''" and "length (strings_TrimSpace I c) \<noteq> 0"
    and "\<not> HasSuffix filePath notesFileSuffix"
    and "sort_manifestFile I visit
           \<lparr>entries = util_SplitManifests I c, path = filePath, apis = versions\<rparr> r
         = Done (result', Some e)"
  shows "Partition_loop I visit versions (pre @ (filePath, c) # post) result notes
         = Done (result', notes', Some e)"
  using assms by (simp add: Partition_loop_append)

lemma Partition_loop_notes_value:
  "Partition_loop I visit versions files result notes = Done (result', notes', None) \<Longrightarrow>
   notes' = notes ++ map_of (rev (map (\<lambda>(p, c). (path_Base (path_Dir (path_Dir p)), c))
      (filter (\<lambda>(p, c). \<not> HasPrefix (path_Base p) ''_'' \<and> length (strings_TrimSpace I c) \<noteq> 0
                  \<and> HasSuffix p notesFileSuffix) files)))"
proof (induction files arbitrary: result "notes")
  case Nil
  then show ?case by simp
next
  case (Cons f files)
  obtain filePath c where f: "f = (filePath, c)" by (cases f)
  let ?rest = "map (\<lambda>(p, c). (path_Base (path_Dir (path_Dir p)), c))
      (filter (\<lambda>(p, c). \<not> HasPrefix (path_Base p) ''_'' \<and> length (strings_TrimSpace I c) \<noteq> 0
                  \<and> HasSuffix p notesFileSuffix) files)"
  show ?case
  proof (cases filePath I c rule: Partition_loop_cases)
    case skip
    from Cons.prems have "notes' = notes ++ map_of (rev ?rest)"
      unfolding f Partition_loop_skip [OF skip] by (rule Cons.IH)
    with skip show ?thesis by (auto simp: f)
  next
    case notes_file
    let ?k = "path_Base (path_Dir (path_Dir filePath))"
    from Cons.prems have "notes' = notes(?k \<mapsto> c) ++ map_of (rev ?rest)"
      unfolding f Partition_loop_notes [OF notes_file] by (rule Cons.IH)
    also have "\<dots> = notes ++ map_of (rev ((?k, c) # ?rest))"
      by (rule ext) (simp add: map_add_def split: option.splits)
    finally show ?thesis using notes_file by (simp add: f)
  next
    case manifests
    from Cons.prems obtain r1 where
      "Partition_loop I visit versions files r1 notes = Done (result', notes', None)"
      unfolding f Partition_loop_sort [OF manifests]
      by (auto simp del: Partition_loop.simps split: run.splits option.splits)
    then have "notes' = notes ++ map_of (rev ?rest)" by (rule Cons.IH)
    with manifests show ?thesis by (simp add: f)
  qed
qed


text \<open>
  Claim C4. \<^verbatim>\<open>Partition\<close> never panics, and it returns an error exactly when some
  file that is neither skipped nor a notes file has an entry that does not parse: the
  first such entry, in the order of the two loops. The error is the parse error of that
  entry. With it come the hooks and the generic manifests gathered from the files before
  that file and from the entries visited before that entry (\<open>r'\<close>), and the notes
  gathered from the files before that file: for each chart name the content of the last
  notes file before it.
\<close>

theorem Partition_error_is_first_parse_error:
  "Partition I visit files versions order \<noteq> Panic
   \<and> (Partition I visit files versions order = Done (hs, gs, nts, Some e) \<longleftrightarrow>
        (\<exists>pre filePath c post ms m ms' msg r r'.
           files = pre @ (filePath, c) # post
           \<and> Partition_loop I visit versions pre \<lparr>hooks = [], generic = []\<rparr> Map.empty
               = Done (r, nts, None)
           \<and> nts = map_of (rev (map (\<lambda>(p, c). (path_Base (path_Dir (path_Dir p)), c))
                 (filter (\<lambda>(p, c). \<not> HasPrefix (path_Base p) ''_''
                            \<and> length (strings_TrimSpace I c) \<noteq> 0
                            \<and> HasSuffix p notesFileSuffix) pre)))
           \<and> \<not> HasPrefix (path_Base filePath) ''_'' \<and> length (strings_TrimSpace I c) \<noteq> 0
           \<and> \<not> HasSuffix filePath notesFileSuffix
           \<and> visit filePath (util_SplitManifests I c) = ms @ m # ms'
           \<and> sort_loop I \<lparr>entries = util_SplitManifests I c, path = filePath,
                            apis = versions\<rparr> ms r = Done (r', None)
           \<and> yaml_Unmarshal I m = Inl msg \<and> e = YAMLParseError filePath msg
           \<and> hs = hooks r' \<and> gs = generic r'))"
proof (intro conjI iffI)
  show "Partition I visit files versions order \<noteq> Panic"
    using Partition_loop_not_Panic
      [of I visit versions files "\<lparr>hooks = [], generic = []\<rparr>" Map.empty]
    by (simp add: Partition_def split: run.splits option.splits)
next
  assume "Partition I visit files versions order = Done (hs, gs, nts, Some e)"
  then obtain r' where loop: "Partition_loop I visit versions files \<lparr>hooks = [], generic = []\<rparr>
      Map.empty = Done (r', nts, Some e)" and out: "hs = hooks r'" "gs = generic r'"
    by (auto simp: Partition_def split: run.splits option.splits)
  from Partition_loop_error_imp [OF loop] obtain pre filePath c post r where d:
    "files = pre @ (filePath, c) # post"
    "Partition_loop I visit versions pre \<lparr>hooks = [], generic = []\<rparr> Map.empty
       = Done (r, nts, None)"
    "\<not> HasPrefix (path_Base filePath) ''_''" "length (strings_TrimSpace I c) \<noteq> 0"
    "\<not> HasSuffix filePath notesFileSuffix"
    "sort_manifestFile I visit
       \<lparr>entries = util_SplitManifests I c, path = filePath, apis = versions\<rparr> r
     = Done (r', Some e)"
    by blast
  let ?file = "\<lparr>entries = util_SplitManifests I c, path = filePath, apis = versions\<rparr>"
  from Partition_loop_notes_value [OF d(2)]
  have nts: "nts = map_of (rev (map (\<lambda>(p, c). (path_Base (path_Dir (path_Dir p)), c))
                 (filter (\<lambda>(p, c). \<not> HasPrefix (path_Base p) ''_''
                            \<and> length (strings_TrimSpace I c) \<noteq> 0
                            \<and> HasSuffix p notesFileSuffix) pre)))"
    by simp
  from d(6) have "sort_loop I ?file (visit filePath (util_SplitManifests I c)) r
      = Done (r', Some e)"
    by (simp add: sort_manifestFile_def)
  then obtain ms m ms' msg where e:
    "visit filePath (util_SplitManifests I c) = ms @ m # ms'"
    "sort_loop I ?file ms r = Done (r', None)"
    "yaml_Unmarshal I m = Inl msg" "e = YAMLParseError (path ?file) msg"
    unfolding sort_loop_error_iff by blast
  from e(4) have "e = YAMLParseError filePath msg" by simp
  with d(1-5) nts e(1-3) out
  show "\<exists>pre filePath c post ms m ms' msg r r'.
           files = pre @ (filePath, c) # post
           \<and> Partition_loop I visit versions pre \<lparr>hooks = [], generic = []\<rparr> Map.empty
               = Done (r, nts, None)
           \<and> nts = map_of (rev (map (\<lambda>(p, c). (path_Base (path_Dir (path_Dir p)), c))
                 (filter (\<lambda>(p, c). \<not> HasPrefix (path_Base p) ''_''
                            \<and> length (strings_TrimSpace I c) \<noteq> 0
                            \<and> HasSuffix p notesFileSuffix) pre)))
           \<and> \<not> HasPrefix (path_Base filePath) ''_'' \<and> length (strings_TrimSpace I c) \<noteq> 0
           \<and> \<not> HasSuffix filePath notesFileSuffix
           \<and> visit filePath (util_SplitManifests I c) = ms @ m # ms'
           \<and> sort_loop I \<lparr>entries = util_SplitManifests I c, path = filePath,
                            apis = versions\<rparr> ms r = Done (r', None)
           \<and> yaml_Unmarshal I m = Inl msg \<and> e = YAMLParseError filePath msg
           \<and> hs = hooks r' \<and> gs = generic r'"
    by blast
next
  assume "\<exists>pre filePath c post ms m ms' msg r r'.
           files = pre @ (filePath, c) # post
           \<and> Partition_loop I visit versions pre \<lparr>hooks = [], generic = []\<rparr> Map.empty
               = Done (r, nts, None)
           \<and> nts = map_of (rev (map (\<lambda>(p, c). (path_Base (path_Dir (path_Dir p)), c))
                 (filter (\<lambda>(p, c). \<not> HasPrefix (path_Base p) ''_''
                            \<and> length (strings_TrimSpace I c) \<noteq> 0
                            \<and> HasSuffix p notesFileSuffix) pre)))
           \<and> \<not> HasPrefix (path_Base filePath) ''_'' \<and> length (strings_TrimSpace I c) \<noteq> 0
           \<and> \<not> HasSuffix filePath notesFileSuffix
           \<and> visit filePath (util_SplitManifests I c) = ms @ m # ms'
           \<and> sort_loop I \<lparr>entries = util_SplitManifests I c, path = filePath,
                            apis = versions\<rparr> ms r = Done (r', None)
           \<and> yaml_Unmarshal I m = Inl msg \<and> e = YAMLParseError filePath msg
           \<and> hs = hooks r' \<and> gs = generic r'"
  then obtain pre filePath c post ms m ms' msg r r' where d:
    "files = pre @ (filePath, c) # post"
    "Partition_loop I visit versions pre \<lparr>hooks = [], generic = []\<rparr> Map.empty
       = Done (r, nts, None)"
    "\<not> HasPrefix (path_Base filePath) ''_''" "length (strings_TrimSpace I c) \<noteq> 0"
    "\<not> HasSuffix filePath notesFileSuffix"
    "visit filePath (util_SplitManifests I c) = ms @ m # ms'"
    "sort_loop I \<lparr>entries = util_SplitManifests I c, path = filePath, apis = versions\<rparr> ms r
       = Done (r', None)"
    "yaml_Unmarshal I m = Inl msg" "e = YAMLParseError filePath msg"
    "hs = hooks r'" "gs = generic r'"
    by blast
  let ?file = "\<lparr>entries = util_SplitManifests I c, path = filePath, apis = versions\<rparr>"
  have "sort_loop I ?file (ms @ m # ms') r = Done (r', Some e)"
    unfolding sort_loop_error_iff using d(7,8,9) by auto
  then have "sort_manifestFile I visit ?file r = Done (r', Some e)"
    by (simp add: sort_manifestFile_def d(6))
  from Partition_loop_error_if [OF d(2,3,4,5) this, of post]
  show "Partition I visit files versions order = Done (hs, gs, nts, Some e)"
    by (simp add: Partition_def d(1,10,11))
qed


theorem Partition_error_is_first_parse_error_witness:
  "map_run (\<lambda>(hs, gs, nts, err). (hs, gs, nts ''parent'', nts ''child'', err))
     (Partition example_externals in_order
        [(''parent/templates/a.yaml'', doc_plain),
         (''parent/templates/NOTES.txt'', ''parent notes''),
         (''parent/templates/b.yaml'', doc_hook @ ''|'' @ doc_malformed @ ''|'' @ doc_plain),
         (''parent/charts/child/templates/NOTES.txt'', ''child notes'')] {} InstallOrder)
   = Done ([\<lparr>Hook.Name = ''example'', Kind = ''Job'', Path = ''parent/templates/b.yaml'',
             Manifest = doc_hook, Events = [PRE_INSTALL, POST_UPGRADE, PRE_INSTALL],
             Weight = word_of_int (- 5), DeletePolicies = [SUCCEEDED]\<rparr>],
           [\<lparr>Manifest.Name = ''parent/templates/a.yaml'', Content = doc_plain,
             Head = head_plain ''ConfigMap''\<rparr>],
           Some ''parent notes'', None,
           Some (YAMLParseError ''parent/templates/b.yaml''
                   ''did not find expected node content''))"
proof -
  let ?I = example_externals
  let ?b = "doc_hook @ ''|'' @ doc_malformed @ ''|'' @ doc_plain"
  let ?pre = "[(''parent/templates/a.yaml'', doc_plain),
               (''parent/templates/NOTES.txt'', ''parent notes'')]"
  let ?post = "[(''parent/charts/child/templates/NOTES.txt'', ''child notes'')]"
  let ?nts = "map_of (rev (map (\<lambda>(p, c). (path_Base (path_Dir (path_Dir p)), c))
      (filter (\<lambda>(p, c). \<not> HasPrefix (path_Base p) ''_''
                 \<and> length (strings_TrimSpace ?I c) \<noteq> 0
                 \<and> HasSuffix p notesFileSuffix) ?pre)))"
  let ?ga = "\<lparr>Manifest.Name = ''parent/templates/a.yaml'', Content = doc_plain,
               Head = head_plain ''ConfigMap''\<rparr>"
  let ?h = "\<lparr>Hook.Name = ''example'', Kind = ''Job'', Path = ''parent/templates/b.yaml'',
              Manifest = doc_hook, Events = [PRE_INSTALL, POST_UPGRADE, PRE_INSTALL],
              Weight = word_of_int (- 5) :: 32 word, DeletePolicies = [SUCCEEDED]\<rparr>"
  let ?r = "\<lparr>hooks = [] :: (Hook_Event, Hook_DeletePolicy) Hook list, generic = [?ga]\<rparr>"
  let ?r' = "\<lparr>hooks = [?h], generic = [?ga]\<rparr>"
  let ?e = "YAMLParseError ''parent/templates/b.yaml'' ''did not find expected node content''"
  have parse_plain: "yaml_Unmarshal ?I doc_plain = Inr (head_plain ''ConfigMap'')"
    by (simp add: example_externals_def example_Unmarshal_def)
  have entry_plain: "sort_entry ?I file doc_plain \<lparr>hooks = [], generic = []\<rparr>
      = Continue \<lparr>hooks = [], generic = [\<lparr>Manifest.Name = path file, Content = doc_plain,
               Head = head_plain ''ConfigMap''\<rparr>]\<rparr>" for "file"
    using sort_entry_generic [OF parse_plain, of "file" "\<lparr>hooks = [], generic = []\<rparr>"]
    by (simp add: head_plain_def)
  have split_a: "in_order p (util_SplitManifests ?I doc_plain) = [doc_plain]" for p
    by (simp add: in_order_def example_externals_def doc_plain_def)
  have kept_a: "\<not> HasPrefix (path_Base ''parent/templates/a.yaml'') ''_''"
    "length (strings_TrimSpace ?I doc_plain) \<noteq> 0"
    "\<not> HasSuffix ''parent/templates/a.yaml'' notesFileSuffix"
    by (simp_all add: path_Base_def HasPrefix_def HasSuffix_def notesFileSuffix_def
        example_externals_def doc_plain_def ascii_TrimSpace_def isSpace_def)
  have kept_n: "\<not> HasPrefix (path_Base ''parent/templates/NOTES.txt'') ''_''"
    "length (strings_TrimSpace ?I ''parent notes'') \<noteq> 0"
    "HasSuffix ''parent/templates/NOTES.txt'' notesFileSuffix"
    by (simp_all add: path_Base_def HasPrefix_def HasSuffix_def notesFileSuffix_def
        example_externals_def ascii_TrimSpace_def isSpace_def)
  have "\<exists>n. Partition_loop ?I in_order {} ?pre \<lparr>hooks = [], generic = []\<rparr> Map.empty
      = Done (?r, n, None)"
    unfolding Partition_loop_sort [OF kept_a] Partition_loop_notes [OF kept_n]
    by (simp add: sort_manifestFile_def split_a entry_plain)
  then obtain n where n: "Partition_loop ?I in_order {} ?pre \<lparr>hooks = [], generic = []\<rparr>
      Map.empty = Done (?r, n, None)" ..
  from Partition_loop_notes_value [OF n] have "n = ?nts" by simp
  with n have pre: "Partition_loop ?I in_order {} ?pre \<lparr>hooks = [], generic = []\<rparr> Map.empty
      = Done (?r, ?nts, None)"
    by simp
  have keep: "\<not> HasPrefix (path_Base ''parent/templates/b.yaml'') ''_''"
    "length (strings_TrimSpace ?I ?b) \<noteq> 0"
    "\<not> HasSuffix ''parent/templates/b.yaml'' notesFileSuffix"
    by (simp_all add: path_Base_def HasPrefix_def HasSuffix_def notesFileSuffix_def
        example_externals_def doc_hook_def doc_malformed_def doc_plain_def
        ascii_TrimSpace_def isSpace_def)
  have split_b: "in_order ''parent/templates/b.yaml'' (util_SplitManifests ?I ?b)
      = [doc_hook] @ doc_malformed # [doc_plain]"
    by (simp add: in_order_def example_externals_def doc_hook_def doc_malformed_def
        doc_plain_def)
  have md: "Metadata head_hook = Some \<lparr>Metadata.Name = ''example'', Annotations = Some
      [(''helm.sh/hook'', ''pre-install, Post-Upgrade ,pre-install''),
       (''helm.sh/hook-delete-policy'', ''hook-succeeded,bogus''),
       (''helm.sh/hook-weight'', ''-5'')]\<rparr>"
    by (simp add: head_hook_def head_annotated_def)
  have ix: "index_ok (Annotations \<lparr>Metadata.Name = ''example'', Annotations = Some
      [(''helm.sh/hook'', ''pre-install, Post-Upgrade ,pre-install''),
       (''helm.sh/hook-delete-policy'', ''hook-succeeded,bogus''),
       (''helm.sh/hook-weight'', ''-5'')]\<rparr>) (hooks_HookAnno ?I)
      = Some ''pre-install, Post-Upgrade ,pre-install''"
    by (simp add: index_ok_def example_externals_def)
  have "\<forall>t \<in> set (map (\<lambda>t. strings_ToLower ?I (strings_TrimSpace ?I t))
         (Split ''pre-install, Post-Upgrade ,pre-install'' CHR '','')).
       hooks_Events ?I t \<noteq> None"
    unfolding example_hook_types by (simp add: example_externals_def example_Events_def)
  then have known: "\<forall>t \<in> set (Split ''pre-install, Post-Upgrade ,pre-install'' CHR '','').
       hooks_Events ?I (strings_ToLower ?I (strings_TrimSpace ?I t)) \<noteq> None"
    by simp
  have entry_hook: "sort_entry ?I \<lparr>entries = es, path = ''parent/templates/b.yaml'',
      apis = {}\<rparr> doc_hook ?r = Continue ?r'" for es
    unfolding sort_entry_hook [OF example_parse_hook md ix known]
    using example_hook_types
    by (simp add: example_externals_def example_Events_def example_DeletePolices_def
        index_ok_def index_def Atoi_def isDigit_def digit_val_def List.map_filter_def
        head_hook_def head_annotated_def)
       (simp add: ascii_ToLower_def ascii_TrimSpace_def isSpace_def)
  have before: "sort_loop ?I \<lparr>entries = util_SplitManifests ?I ?b,
      path = ''parent/templates/b.yaml'', apis = {}\<rparr> [doc_hook] ?r = Done (?r', None)"
    by (simp add: entry_hook)
  have bad: "yaml_Unmarshal ?I doc_malformed = Inl ''did not find expected node content''"
    by (simp add: example_externals_def example_Unmarshal_def doc_malformed_def doc_plain_def
        doc_labelled_def doc_hook_def doc_bogus_def doc_heavy_def)
  have "\<exists>pre filePath c post ms m ms' msg r r'.
      ?pre @ (''parent/templates/b.yaml'', ?b) # ?post = pre @ (filePath, c) # post
      \<and> Partition_loop ?I in_order {} pre \<lparr>hooks = [], generic = []\<rparr> Map.empty
          = Done (r, ?nts, None)
      \<and> ?nts = map_of (rev (map (\<lambda>(p, c). (path_Base (path_Dir (path_Dir p)), c))
            (filter (\<lambda>(p, c). \<not> HasPrefix (path_Base p) ''_''
                       \<and> length (strings_TrimSpace ?I c) \<noteq> 0
                       \<and> HasSuffix p notesFileSuffix) pre)))
      \<and> \<not> HasPrefix (path_Base filePath) ''_'' \<and> length (strings_TrimSpace ?I c) \<noteq> 0
      \<and> \<not> HasSuffix filePath notesFileSuffix
      \<and> in_order filePath (util_SplitManifests ?I c) = ms @ m # ms'
      \<and> sort_loop ?I \<lparr>entries = util_SplitManifests ?I c, path = filePath, apis = {}\<rparr> ms r
          = Done (r', None)
      \<and> yaml_Unmarshal ?I m = Inl msg \<and> ?e = YAMLParseError filePath msg
      \<and> [?h] = hooks r' \<and> [?ga] = generic r'"
    apply (rule exI [of _ ?pre])
    apply (rule exI [of _ "''parent/templates/b.yaml''"])
    apply (rule exI [of _ ?b])
    apply (rule exI [of _ ?post])
    apply (rule exI [of _ "[doc_hook]"])
    apply (rule exI [of _ doc_malformed])
    apply (rule exI [of _ "[doc_plain]"])
    apply (rule exI [of _ "''did not find expected node content''"])
    apply (rule exI [of _ ?r])
    apply (rule exI [of _ ?r'])
    apply (intro conjI pre keep split_b before bad refl)
       apply simp_all
    done
  then have run: "Partition ?I in_order (?pre @ (''parent/templates/b.yaml'', ?b) # ?post)
      {} InstallOrder = Done ([?h], [?ga], ?nts, Some ?e)"
    using Partition_error_is_first_parse_error
      [of ?I in_order "?pre @ (''parent/templates/b.yaml'', ?b) # ?post" "{}" InstallOrder
          "[?h]" "[?ga]" ?nts ?e]
    by blast
  have "?nts ''parent'' = Some ''parent notes''" "?nts ''child'' = None"
    by (simp_all add: path_Base_def path_Dir_def path_Split_def path_Clean_def clean_step_def
        HasPrefix_def HasSuffix_def notesFileSuffix_def example_externals_def doc_plain_def
        ascii_TrimSpace_def isSpace_def)
  with run show ?thesis by simp
qed

lemma Partition_string_loop_skip:
  "HasPrefix (path_Base filePath) ''_'' \<or> length (strings_TrimSpace I c) = 0 \<Longrightarrow>
   Partition_string_loop I visit versions ((filePath, c) # files) result notes =
     Partition_string_loop I visit versions files result notes"
  by auto

lemma Partition_string_loop_notes:
  "\<not> HasPrefix (path_Base filePath) ''_'' \<Longrightarrow> length (strings_TrimSpace I c) \<noteq> 0 \<Longrightarrow>
   HasSuffix filePath notesFileSuffix \<Longrightarrow>
   Partition_string_loop I visit versions ((filePath, c) # files) result notes =
     Partition_string_loop I visit versions files result
       (if fst (path_Match notesFileParentGlob filePath) then c else notes)"
  by (simp add: path_Match_def)

lemma Partition_string_loop_sort:
  "\<not> HasPrefix (path_Base filePath) ''_'' \<Longrightarrow> length (strings_TrimSpace I c) \<noteq> 0 \<Longrightarrow>
   \<not> HasSuffix filePath notesFileSuffix \<Longrightarrow>
   Partition_string_loop I visit versions ((filePath, c) # files) result notes =
     (case sort_manifestFile I visit
             \<lparr>entries = util_SplitManifests I c, path = filePath, apis = versions\<rparr> result of
        Panic \<Rightarrow> Panic
      | Done (result', Some err) \<Rightarrow> Done (result', notes, Some err)
      | Done (result', None) \<Rightarrow> Partition_string_loop I visit versions files result' notes)"
  by simp

lemma Partition_loops_agree:
  "\<forall>(p, c) \<in> set files. visit p (util_SplitManifests I c) = visit' p (util_SplitManifests I c) \<Longrightarrow>
   map_run (\<lambda>(result', notes', err). (result', err))
     (Partition_string_loop I visit versions files result text)
   = map_run (\<lambda>(result', notes', err). (result', err))
     (Partition_loop I visit' versions files result notes)"
proof (induction files arbitrary: result "notes" "text")
  case Nil
  then show ?case by simp
next
  case (Cons f files)
  obtain filePath c where f: "f = (filePath, c)" by (cases f)
  from Cons.prems have same: "visit filePath (util_SplitManifests I c)
      = visit' filePath (util_SplitManifests I c)"
    and rest: "\<forall>(p, c) \<in> set files.
      visit p (util_SplitManifests I c) = visit' p (util_SplitManifests I c)"
    by (simp_all add: f)
  note IH = Cons.IH [OF rest]
  show ?case
  proof (cases filePath I c rule: Partition_loop_cases)
    case skip
    show ?thesis
      unfolding f Partition_loop_skip [OF skip] Partition_string_loop_skip [OF skip]
      by (rule IH)
  next
    case notes_file
    show ?thesis
      unfolding f Partition_loop_notes [OF notes_file]
        Partition_string_loop_notes [OF notes_file]
      by (rule IH)
  next
    case manifests
    have "sort_manifestFile I visit
        \<lparr>entries = util_SplitManifests I c, path = filePath, apis = versions\<rparr> result
      = sort_manifestFile I visit'
        \<lparr>entries = util_SplitManifests I c, path = filePath, apis = versions\<rparr> result"
      by (simp add: sort_manifestFile_def same)
    then show ?thesis
      unfolding f Partition_loop_sort [OF manifests] Partition_string_loop_sort [OF manifests]
      by (simp add: IH split: run.splits option.splits)
  qed
qed

text \<open>
  Claim C10, as the claim states it, at one input: one file with two hook documents,
  given to both versions of \<^verbatim>\<open>Partition\<close> as the same list of files. The claim fixes
  the order of the files only; the entries of a file are a Go map, and here the loop of
  \<^verbatim>\<open>sort\<close> visits them in the order of the text in one run and in the reverse order
  in the other. The two versions return the two hooks in different orders.
\<close>

theorem Partition_versions_entry_order_counterexample:
  "map_run (\<lambda>(hs, gs, nts, err). (map Hook.Manifest hs, err))
     (Partition_string example_externals in_order
        [(''parent/templates/jobs.yaml'', doc_hook @ ''|'' @ doc_heavy)] {} InstallOrder)
     = Done ([doc_hook, doc_heavy], None)
   \<and> map_run (\<lambda>(hs, gs, nts, err). (map Hook.Manifest hs, err))
     (Partition example_externals in_reverse
        [(''parent/templates/jobs.yaml'', doc_hook @ ''|'' @ doc_heavy)] {} InstallOrder)
     = Done ([doc_heavy, doc_hook], None)"
proof -
  let ?I = example_externals
  let ?c = "doc_hook @ ''|'' @ doc_heavy"
  have kept: "\<not> HasPrefix (path_Base ''parent/templates/jobs.yaml'') ''_''"
    "length (strings_TrimSpace ?I ?c) \<noteq> 0"
    "\<not> HasSuffix ''parent/templates/jobs.yaml'' notesFileSuffix"
    by (simp_all add: path_Base_def HasPrefix_def HasSuffix_def notesFileSuffix_def
        example_externals_def doc_hook_def doc_heavy_def ascii_TrimSpace_def isSpace_def)
  have split: "util_SplitManifests ?I ?c = [doc_hook, doc_heavy]"
    by (simp add: example_externals_def doc_hook_def doc_heavy_def)
  have parse_heavy: "yaml_Unmarshal ?I doc_heavy = Inr head_heavy"
    by (simp add: example_externals_def example_Unmarshal_def doc_hook_def doc_plain_def
        doc_labelled_def doc_bogus_def doc_heavy_def)
  have md_hook: "Metadata head_hook = Some \<lparr>Metadata.Name = ''example'', Annotations = Some
      [(''helm.sh/hook'', ''pre-install, Post-Upgrade ,pre-install''),
       (''helm.sh/hook-delete-policy'', ''hook-succeeded,bogus''),
       (''helm.sh/hook-weight'', ''-5'')]\<rparr>"
    by (simp add: head_hook_def head_annotated_def)
  have ix_hook: "index_ok (Annotations \<lparr>Metadata.Name = ''example'', Annotations = Some
      [(''helm.sh/hook'', ''pre-install, Post-Upgrade ,pre-install''),
       (''helm.sh/hook-delete-policy'', ''hook-succeeded,bogus''),
       (''helm.sh/hook-weight'', ''-5'')]\<rparr>) (hooks_HookAnno ?I)
      = Some ''pre-install, Post-Upgrade ,pre-install''"
    by (simp add: index_ok_def example_externals_def)
  have "\<forall>t \<in> set (map (\<lambda>t. strings_ToLower ?I (strings_TrimSpace ?I t))
         (Split ''pre-install, Post-Upgrade ,pre-install'' CHR '','')).
       hooks_Events ?I t \<noteq> None"
    unfolding example_hook_types by (simp add: example_externals_def example_Events_def)
  then have known_hook: "\<forall>t \<in> set (Split ''pre-install, Post-Upgrade ,pre-install'' CHR '','').
       hooks_Events ?I (strings_ToLower ?I (strings_TrimSpace ?I t)) \<noteq> None"
    by simp
  have md_heavy: "Metadata head_heavy = Some \<lparr>Metadata.Name = ''example'', Annotations = Some
      [(''helm.sh/hook'', ''pre-install''), (''helm.sh/hook-weight'', ''2147483648'')]\<rparr>"
    by (simp add: head_heavy_def head_annotated_def)
  have ix_heavy: "index_ok (Annotations \<lparr>Metadata.Name = ''example'', Annotations = Some
      [(''helm.sh/hook'', ''pre-install''), (''helm.sh/hook-weight'', ''2147483648'')]\<rparr>)
      (hooks_HookAnno ?I) = Some ''pre-install''"
    by (simp add: index_ok_def example_externals_def)
  have known_heavy: "\<forall>t \<in> set (Split ''pre-install'' CHR '','').
       hooks_Events ?I (strings_ToLower ?I (strings_TrimSpace ?I t)) \<noteq> None"
    by (simp add: example_externals_def example_Events_def ascii_ToLower_def
        ascii_TrimSpace_def isSpace_def)
  have hook: "\<exists>h. sort_entry ?I file doc_hook result
      = Continue (result\<lparr>hooks := hooks result @ [h]\<rparr>) \<and> Hook.Manifest h = doc_hook"
    for "file" result
    by (rule exI, rule conjI,
        rule sort_entry_hook [OF example_parse_hook md_hook ix_hook known_hook]) simp
  have heavy: "\<exists>h. sort_entry ?I file doc_heavy result
      = Continue (result\<lparr>hooks := hooks result @ [h]\<rparr>) \<and> Hook.Manifest h = doc_heavy"
    for "file" result
    by (rule exI, rule conjI,
        rule sort_entry_hook [OF parse_heavy md_heavy ix_heavy known_heavy]) simp
  have forward: "\<exists>h1 h2. sort_loop ?I file [doc_hook, doc_heavy] \<lparr>hooks = [], generic = []\<rparr>
      = Done (\<lparr>hooks = [h1, h2], generic = []\<rparr>, None)
      \<and> Hook.Manifest h1 = doc_hook \<and> Hook.Manifest h2 = doc_heavy" for "file"
  proof -
    from hook [of "file" "\<lparr>hooks = [], generic = []\<rparr>"] obtain h1 where
      h1: "sort_entry ?I file doc_hook \<lparr>hooks = [], generic = []\<rparr>
        = Continue \<lparr>hooks = [h1], generic = []\<rparr>" "Hook.Manifest h1 = doc_hook"
      by auto
    from heavy [of "file" "\<lparr>hooks = [h1], generic = []\<rparr>"] obtain h2 where
      h2: "sort_entry ?I file doc_heavy \<lparr>hooks = [h1], generic = []\<rparr>
        = Continue \<lparr>hooks = [h1, h2], generic = []\<rparr>" "Hook.Manifest h2 = doc_heavy"
      by auto
    from h1 h2 show ?thesis by simp
  qed
  have backward: "\<exists>h1 h2. sort_loop ?I file [doc_heavy, doc_hook] \<lparr>hooks = [], generic = []\<rparr>
      = Done (\<lparr>hooks = [h1, h2], generic = []\<rparr>, None)
      \<and> Hook.Manifest h1 = doc_heavy \<and> Hook.Manifest h2 = doc_hook" for "file"
  proof -
    from heavy [of "file" "\<lparr>hooks = [], generic = []\<rparr>"] obtain h1 where
      h1: "sort_entry ?I file doc_heavy \<lparr>hooks = [], generic = []\<rparr>
        = Continue \<lparr>hooks = [h1], generic = []\<rparr>" "Hook.Manifest h1 = doc_heavy"
      by auto
    from hook [of "file" "\<lparr>hooks = [h1], generic = []\<rparr>"] obtain h2 where
      h2: "sort_entry ?I file doc_hook \<lparr>hooks = [h1], generic = []\<rparr>
        = Continue \<lparr>hooks = [h1, h2], generic = []\<rparr>" "Hook.Manifest h2 = doc_hook"
      by auto
    from h1 h2 show ?thesis by simp
  qed
  have sortKind: "sortByKind ?I [] InstallOrder = []"
    by (simp add: example_externals_def)
  let ?file = "\<lparr>entries = [doc_hook, doc_heavy], path = ''parent/templates/jobs.yaml'',
                 apis = {}\<rparr>"
  from forward [of ?file] obtain f1 f2 where f:
    "sort_loop ?I ?file [doc_hook, doc_heavy] \<lparr>hooks = [], generic = []\<rparr>
       = Done (\<lparr>hooks = [f1, f2], generic = []\<rparr>, None)"
    "Hook.Manifest f1 = doc_hook" "Hook.Manifest f2 = doc_heavy"
    by blast
  from backward [of ?file] obtain b1 b2 where b:
    "sort_loop ?I ?file [doc_heavy, doc_hook] \<lparr>hooks = [], generic = []\<rparr>
       = Done (\<lparr>hooks = [b1, b2], generic = []\<rparr>, None)"
    "Hook.Manifest b1 = doc_heavy" "Hook.Manifest b2 = doc_hook"
    by blast
  have sorted_forward: "sort_manifestFile ?I in_order ?file \<lparr>hooks = [], generic = []\<rparr>
      = Done (\<lparr>hooks = [f1, f2], generic = []\<rparr>, None)"
    using f(1) by (simp add: sort_manifestFile_def in_order_def del: sort_loop.simps)
  have sorted_backward: "sort_manifestFile ?I in_reverse ?file \<lparr>hooks = [], generic = []\<rparr>
      = Done (\<lparr>hooks = [b1, b2], generic = []\<rparr>, None)"
    using b(1) by (simp add: sort_manifestFile_def in_reverse_def del: sort_loop.simps)
  have "Partition_string ?I in_order [(''parent/templates/jobs.yaml'', ?c)] {} InstallOrder
      = Done ([f1, f2], [], [], None)"
    unfolding Partition_string_def Partition_string_loop_sort [OF kept] split sorted_forward
    by (simp add: sortKind)
  moreover
  have "Partition ?I in_reverse [(''parent/templates/jobs.yaml'', ?c)] {} InstallOrder
      = Done ([b1, b2], [], Map.empty, None)"
    unfolding Partition_def Partition_loop_sort [OF kept] split sorted_backward
    by (simp add: sortKind)
  ultimately show ?thesis
    by (simp add: f(2,3) b(2,3))
qed

text \<open>
  Claim C10, amended. On the same files in the same order, and with the entries of each
  file visited in the same order (and with the same parameters), the version of
  \<^verbatim>\<open>Partition\<close> that returns the notes as one string and the version that returns
  them as a map from chart name to content return the same hooks, the same generic
  manifests and the same error, or both panic; only the notes differ.
\<close>

theorem Partition_versions_agree_but_for_notes:
  assumes "\<forall>(p, c) \<in> set files.
      visit p (util_SplitManifests I c) = visit' p (util_SplitManifests I c)"
  shows "map_run (\<lambda>(hs, gs, notes', err). (hs, gs, err))
       (Partition_string I visit files versions order)
     = map_run (\<lambda>(hs, gs, notes', err). (hs, gs, err)) (Partition I visit' files versions order)"
proof -
  let ?r0 = "\<lparr>hooks = [], generic = []\<rparr> :: ('a, 'b) result"
  note agree = Partition_loops_agree [OF assms, of versions ?r0 "[]" Map.empty]
  show ?thesis
  proof (cases "Partition_loop I visit' versions files ?r0 Map.empty")
    case Panic
    with agree have "Partition_string_loop I visit versions files ?r0 [] = Panic"
      by (cases "Partition_string_loop I visit versions files ?r0 []") simp_all
    with Panic show ?thesis by (simp add: Partition_def Partition_string_def)
  next
    case (Done x)
    obtain r n e where x: "x = (r, n, e)" by (cases x)
    from agree Done x obtain n' where
      "Partition_string_loop I visit versions files ?r0 [] = Done (r, n', e)"
      by (cases "Partition_string_loop I visit versions files ?r0 []") auto
    with Done x show ?thesis
      by (cases e) (simp_all add: Partition_def Partition_string_def)
  qed
qed

theorem Partition_versions_agree_but_for_notes_witness:
  "map_run (\<lambda>(hs, gs, notes', err). (hs, gs, err))
     (Partition_string example_externals in_reverse
        [(''parent/templates/jobs.yaml'', doc_hook @ ''|'' @ doc_heavy),
         (''parent/templates/NOTES.txt'', ''parent notes'')] {} InstallOrder)
   = map_run (\<lambda>(hs, gs, notes', err). (hs, gs, err))
     (Partition example_externals (\<lambda>p es. if es = [doc_hook, doc_heavy] then rev es else es)
        [(''parent/templates/jobs.yaml'', doc_hook @ ''|'' @ doc_heavy),
         (''parent/templates/NOTES.txt'', ''parent notes'')] {} InstallOrder)"
proof -
  have split: "util_SplitManifests example_externals (doc_hook @ ''|'' @ doc_heavy)
      = [doc_hook, doc_heavy]"
    by (simp add: example_externals_def doc_hook_def doc_heavy_def)
  have plain: "util_SplitManifests example_externals ''parent notes'' = [''parent notes'']"
    by (simp add: example_externals_def)
  have "\<forall>(p, c) \<in> set [(''parent/templates/jobs.yaml'', doc_hook @ ''|'' @ doc_heavy),
                         (''parent/templates/NOTES.txt'', ''parent notes'')].
      in_reverse p (util_SplitManifests example_externals c)
      = (\<lambda>p es. if es = [doc_hook, doc_heavy] then rev es else es) p
          (util_SplitManifests example_externals c)"
    unfolding list.set ball_simps prod.case split plain
    by (simp add: in_reverse_def)
  then show ?thesis
    by (rule Partition_versions_agree_but_for_notes)
qed

section \<open>Notes files and chart names\<close>

lemma Split_not_Nil: "Split s sep \<noteq> []"
  by (induction s) (auto split: list.splits)

lemma Split_no_sep: "sep \<notin> set s \<Longrightarrow> Split s sep = [s]"
  by (induction s) auto

lemma Split_append_sep: "Split (a @ sep # b) sep = Split a sep @ Split b sep"
proof (induction a)
  case Nil
  then show ?case by simp
next
  case (Cons x a)
  then show ?case
    using Split_not_Nil [of a sep] by (auto split: list.splits)
qed



lemma intercalate_append:
  "ys \<noteq> [] \<Longrightarrow>
   intercalate sep (xs @ ys) = (if xs = [] then [] else intercalate sep xs @ sep) @ intercalate sep ys"
proof (induction xs rule: intercalate.induct [of _ sep])
  case (1 sep')
  then show ?case by simp
next
  case (2 sep' x)
  then show ?case by (cases ys) simp_all
next
  case (3 sep' x y zs)
  then show ?case by simp
qed






lemma Partition_loop_notes_kept:
  "Partition_loop I visit versions files result notes = Done (result', notes', err) \<Longrightarrow>
   \<forall>(q, d) \<in> set files.
      \<not> HasPrefix (path_Base q) ''_'' \<and> length (strings_TrimSpace I d) \<noteq> 0
      \<and> HasSuffix q notesFileSuffix \<longrightarrow> path_Base (path_Dir (path_Dir q)) \<noteq> k \<Longrightarrow>
   notes' k = notes k"
proof (induction files arbitrary: result "notes")
  case Nil
  then show ?case by simp
next
  case (Cons f files)
  obtain filePath c where f: "f = (filePath, c)" by (cases f)
  from Cons.prems(2) have later: "\<forall>(q, d) \<in> set files.
      \<not> HasPrefix (path_Base q) ''_'' \<and> length (strings_TrimSpace I d) \<noteq> 0
      \<and> HasSuffix q notesFileSuffix \<longrightarrow> path_Base (path_Dir (path_Dir q)) \<noteq> k"
    by simp
  show ?case
  proof (cases filePath I c rule: Partition_loop_cases)
    case skip
    from Cons.prems(1) show ?thesis
      unfolding f Partition_loop_skip [OF skip] by (rule Cons.IH [OF _ later])
  next
    case notes_file
    with Cons.prems(2) have "path_Base (path_Dir (path_Dir filePath)) \<noteq> k"
      by (simp add: f)
    moreover from Cons.prems(1)
    have "notes' k = (notes(path_Base (path_Dir (path_Dir filePath)) \<mapsto> c)) k"
      unfolding f Partition_loop_notes [OF notes_file] by (rule Cons.IH [OF _ later])
    ultimately show ?thesis by simp
  next
    case manifests
    from Cons.prems(1) show ?thesis
      unfolding f Partition_loop_sort [OF manifests]
      by (auto split: run.splits option.splits dest: Cons.IH [OF _ later])
  qed
qed

lemma Partition_loop_notes_recorded:
  assumes "Partition_loop I visit versions (pre @ (filePath, c) # post) result notes
      = Done (result', notes', None)"
    and "\<not> HasPrefix (path_Base filePath) ''_''" and "length (strings_TrimSpace I c) \<noteq> 0"
    and "HasSuffix filePath notesFileSuffix"
    and "\<forall>(q, d) \<in> set post.
      \<not> HasPrefix (path_Base q) ''_'' \<and> length (strings_TrimSpace I d) \<noteq> 0
      \<and> HasSuffix q notesFileSuffix
      \<longrightarrow> path_Base (path_Dir (path_Dir q)) \<noteq> path_Base (path_Dir (path_Dir filePath))"
  shows "notes' (path_Base (path_Dir (path_Dir filePath))) = Some c"
proof -
  let ?k = "path_Base (path_Dir (path_Dir filePath))"
  from assms(1) obtain r1 n1 where
    "Partition_loop I visit versions ((filePath, c) # post) r1 n1 = Done (result', notes', None)"
    unfolding Partition_loop_append
    by (auto simp del: Partition_loop.simps split: run.splits option.splits)
  then have "Partition_loop I visit versions post r1 (n1(?k \<mapsto> c)) = Done (result', notes', None)"
    unfolding Partition_loop_notes [OF assms(2,3,4)] .
  from Partition_loop_notes_kept [OF this assms(5)] show ?thesis by simp
qed










section \<open>Flattening and partitioning again\<close>

lemma fold_append_concat: "fold (\<lambda>m b. b @ f m) ms acc = acc @ concat (map f ms)"
  by (induction ms arbitrary: acc) simp_all

lemma FlattenManifests_concat:
  "FlattenManifests ms =
     concat (map (\<lambda>m. ''\<newline>---\<newline>'' @ (''# Source: '' @ Manifest.Name m @ ''\<newline>'' @ Content m)) ms)"
  unfolding FlattenManifests_def fold_append_concat by simp

lemma ascii_TrimSpace_id:
  assumes "s \<noteq> []" and "\<not> isSpace (hd s)" and "\<not> isSpace (last s)"
  shows "ascii_TrimSpace s = s"
proof -
  from assms(1,2) have "dropWhile isSpace s = s" by (cases s) simp_all
  moreover from assms(1,3) have "dropWhile isSpace (rev s) = rev s"
    by (cases "rev s") (simp_all add: hd_rev [symmetric])
  ultimately show ?thesis by (simp add: ascii_TrimSpace_def)
qed

lemma ascii_TrimSpace_leading: "isSpace c \<Longrightarrow> ascii_TrimSpace (c # s) = ascii_TrimSpace s"
  by (simp add: ascii_TrimSpace_def)

lemma ascii_TrimSpace_fixed_ends:
  assumes "ascii_TrimSpace s = s" and "s \<noteq> []"
  shows "\<not> isSpace (hd s) \<and> \<not> isSpace (last s)"
proof -
  have le1: "length (dropWhile isSpace (rev (dropWhile isSpace s))) \<le> length (dropWhile isSpace s)"
    by (metis length_dropWhile_le length_rev)
  have len: "length (ascii_TrimSpace s) = length s" using assms(1) by simp
  have "\<not> isSpace (hd s)"
  proof
    assume "isSpace (hd s)"
    with assms(2) have "length (dropWhile isSpace s) < length s"
      by (cases s) (simp_all add: le_imp_less_Suc length_dropWhile_le)
    with le1 len show False by (simp add: ascii_TrimSpace_def)
  qed
  then have d: "dropWhile isSpace s = s" using assms(2) by (cases s) simp_all
  have "\<not> isSpace (last s)"
  proof
    assume "isSpace (last s)"
    with assms(2) have "length (dropWhile isSpace (rev s)) < length (rev s)"
      by (cases "rev s") (simp_all add: hd_rev [symmetric] le_imp_less_Suc length_dropWhile_le)
    with len show False by (simp add: ascii_TrimSpace_def d)
  qed
  with \<open>\<not> isSpace (hd s)\<close> show ?thesis ..
qed

lemma intercalate_Cons:
  "ys \<noteq> [] \<Longrightarrow> intercalate sep (x # ys) = x @ sep @ intercalate sep ys"
  by (cases ys) simp_all

lemma intercalate_Split: "intercalate [sep] (Split s sep) = s"
proof (induction s)
  case Nil
  then show ?case by simp
next
  case (Cons c s)
  show ?case
  proof (cases "Split s sep")
    case Nil
    then show ?thesis using Split_not_Nil [of s sep] by simp
  next
    case (Cons w ws)
    with Cons.IH show ?thesis
      by (cases ws) (auto simp: intercalate_Cons)
  qed
qed

lemma Split_elements_no_sep: "l \<in> set (Split s sep) \<Longrightarrow> sep \<notin> set l"
proof (induction s arbitrary: l)
  case Nil
  then show ?case by simp
next
  case (Cons c s)
  then show ?case
    by (cases "Split s sep") (auto split: if_splits)
qed

lemma Split_intercalate:
  "ls \<noteq> [] \<Longrightarrow> \<forall>l \<in> set ls. sep \<notin> set l \<Longrightarrow> Split (intercalate [sep] ls) sep = ls"
proof (induction ls)
  case Nil
  then show ?case by simp
next
  case (Cons l ls)
  show ?case
  proof (cases "ls = []")
    case True
    with Cons.prems show ?thesis by (simp add: Split_no_sep)
  next
    case False
    then have "intercalate [sep] (l # ls) = l @ sep # intercalate [sep] ls"
      by (simp add: intercalate_Cons)
    with Cons False show ?thesis
      by (simp add: Split_append_sep Split_no_sep)
  qed
qed


lemma separated_docs_as_lines:
  "docs \<noteq> [] \<Longrightarrow>
   concat (map (\<lambda>d. ''\<newline>---\<newline>'' @ d) docs) =
     ''\<newline>'' @ intercalate ''\<newline>'' (concat (map (\<lambda>d. ''---'' # Split d CHR ''\<newline>'') docs))"
proof (induction docs)
  case Nil
  then show ?case by simp
next
  case (Cons d docs)
  have first: "intercalate ''\<newline>'' (''---'' # Split d CHR ''\<newline>'') = ''---\<newline>'' @ d"
    using Split_not_Nil [of d "CHR ''\<newline>''"] intercalate_Split [of "CHR ''\<newline>''" d]
    by (simp add: intercalate_Cons)
  show ?case
  proof (cases "docs = []")
    case True
    with first show ?thesis by simp
  next
    case False
    then have ne: "concat (map (\<lambda>d. ''---'' # Split d CHR ''\<newline>'') docs) \<noteq> []"
      by (cases docs) simp_all
    have "intercalate ''\<newline>'' ((''---'' # Split d CHR ''\<newline>'')
            @ concat (map (\<lambda>d. ''---'' # Split d CHR ''\<newline>'') docs))
        = (''---\<newline>'' @ d) @ ''\<newline>''
            @ intercalate ''\<newline>'' (concat (map (\<lambda>d. ''---'' # Split d CHR ''\<newline>'') docs))"
      unfolding intercalate_append [OF ne] first by simp
    with Cons.IH [OF False] show ?thesis by simp
  qed
qed

lemma split_docs_plain_lines:
  "\<forall>l \<in> set ls. \<not> HasPrefix l ''---'' \<Longrightarrow> split_docs rest = g # gs \<Longrightarrow>
   split_docs (ls @ rest) = (ls @ g) # gs"
  by (induction ls) simp_all

lemma split_docs_separated:
  "\<forall>d \<in> set docs. \<forall>l \<in> set (Split d CHR ''\<newline>''). \<not> HasPrefix l ''---'' \<Longrightarrow>
   split_docs (concat (map (\<lambda>d. ''---'' # Split d CHR ''\<newline>'') docs))
     = [] # map (\<lambda>d. [] # Split d CHR ''\<newline>'') docs"
proof (induction docs)
  case Nil
  then show ?case by simp
next
  case (Cons d docs)
  let ?rest = "concat (map (\<lambda>d. ''---'' # Split d CHR ''\<newline>'') docs)"
  from Cons have rest: "split_docs ?rest = [] # map (\<lambda>d. [] # Split d CHR ''\<newline>'') docs"
    by simp
  from Cons.prems have "\<forall>l \<in> set (Split d CHR ''\<newline>''). \<not> HasPrefix l ''---''" by simp
  from split_docs_plain_lines [OF this rest]
  have "split_docs (Split d CHR ''\<newline>'' @ ?rest)
      = (Split d CHR ''\<newline>'' @ []) # map (\<lambda>d. [] # Split d CHR ''\<newline>'') docs" .
  then show ?case by (simp add: HasPrefix_def)
qed

lemma SplitManifests_separated_docs:
  assumes "\<forall>d \<in> set docs. d \<noteq> [] \<and> \<not> isSpace (hd d) \<and> \<not> isSpace (last d)
      \<and> (\<forall>l \<in> set (Split d CHR ''\<newline>''). \<not> HasPrefix l ''---'')"
  shows "SplitManifests (concat (map (\<lambda>d. ''\<newline>---\<newline>'' @ d) docs)) = docs"
proof (cases "docs = []")
  case True
  then show ?thesis by (simp add: SplitManifests_def ascii_TrimSpace_def)
next
  case False
  let ?lines = "concat (map (\<lambda>d. ''---'' # Split d CHR ''\<newline>'') docs)"
  let ?J = "intercalate ''\<newline>'' ?lines"
  from False have ne: "?lines \<noteq> []" by (cases docs) simp_all
  have nl: "isSpace CHR ''\<newline>''" by (simp add: isSpace_def)
  have flat: "concat (map (\<lambda>d. ''\<newline>---\<newline>'' @ d) docs) = CHR ''\<newline>'' # ?J"
    using separated_docs_as_lines [OF False] by simp
  from False obtain ds d where docs: "docs = ds @ [d]"
    by (metis rev_exhaust)
  with assms have d: "d \<noteq> []" "\<not> isSpace (last d)" by auto
  have "last (CHR ''\<newline>'' # ?J) = last (concat (map (\<lambda>d. ''\<newline>---\<newline>'' @ d) docs))"
    by (simp only: flat)
  also have "\<dots> = last d" using d(1) by (simp add: docs)
  finally have lastJ: "last (CHR ''\<newline>'' # ?J) = last d" .
  from False obtain d0 ds0 where docs0: "docs = d0 # ds0" by (cases docs) auto
  have J_Cons: "?J = ''---'' @ tl (tl (tl ?J)) \<and> ?J \<noteq> []"
    unfolding docs0
    using Split_not_Nil [of d0 "CHR ''\<newline>''"]
    by (cases "Split d0 CHR ''\<newline>'' @ concat (map (\<lambda>d. ''---'' # Split d CHR ''\<newline>'') ds0)")
       (simp_all add: intercalate_Cons)
  then have hdJ: "hd ?J = CHR ''-''" "?J \<noteq> []"
    by (metis append_Cons list.sel(1), simp)
  from lastJ hdJ(2) have "last ?J = last d" by simp
  with d(2) hdJ have trimJ: "ascii_TrimSpace ?J = ?J"
    by (intro ascii_TrimSpace_id) (simp_all add: isSpace_def)
  have trim: "ascii_TrimSpace (concat (map (\<lambda>d. ''\<newline>---\<newline>'' @ d) docs)) = ?J"
    unfolding flat ascii_TrimSpace_leading [OF nl] by (rule trimJ)
  have no_nl: "\<forall>l \<in> set ?lines. CHR ''\<newline>'' \<notin> set l"
    by (auto dest: Split_elements_no_sep)
  have lines: "Split ?J CHR ''\<newline>'' = ?lines"
    using Split_intercalate [OF ne no_nl] by simp
  have groups: "split_docs ?lines = [] # map (\<lambda>d. [] # Split d CHR ''\<newline>'') docs"
    using assms by (intro split_docs_separated) blast
  have doc: "ascii_TrimSpace (intercalate ''\<newline>'' ([] # Split d CHR ''\<newline>'')) = d" if "d \<in> set docs" for d
  proof -
    from that assms have "d \<noteq> []" "\<not> isSpace (hd d)" "\<not> isSpace (last d)" by auto
    then have "ascii_TrimSpace d = d" by (rule ascii_TrimSpace_id)
    moreover have "intercalate ''\<newline>'' ([] # Split d CHR ''\<newline>'') = CHR ''\<newline>'' # d"
      using Split_not_Nil [of d "CHR ''\<newline>''"] intercalate_Split [of "CHR ''\<newline>''" d]
      by (simp add: intercalate_Cons)
    ultimately show ?thesis by (simp add: ascii_TrimSpace_leading [OF nl])
  qed
  have "map (\<lambda>g. ascii_TrimSpace (intercalate ''\<newline>'' g)) (map (\<lambda>d. [] # Split d CHR ''\<newline>'') docs) = docs"
    using doc by (simp add: map_idI)
  moreover have "filter (\<lambda>d. d \<noteq> []) docs = docs"
    using assms by (intro filter_True) blast
  ultimately show ?thesis
    unfolding SplitManifests_def trim lines groups
    by (simp add: ascii_TrimSpace_def)
qed


lemma sort_loop_all_generic:
  "\<forall>d \<in> set ds. \<exists>entry. yaml_Unmarshal I d = Inr entry
      \<and> (case Metadata entry of None \<Rightarrow> True
          | Some md \<Rightarrow> index_ok (Annotations md) (hooks_HookAnno I) = None) \<Longrightarrow>
   \<exists>gs. sort_loop I file ds result = Done (result\<lparr>generic := generic result @ gs\<rparr>, None)
      \<and> map Content gs = ds \<and> (\<forall>g \<in> set gs. Manifest.Name g = path file)"
proof (induction ds arbitrary: result)
  case Nil
  show ?case by (rule exI [of _ "[]"]) simp
next
  case (Cons d ds)
  from Cons.prems obtain entry where entry: "yaml_Unmarshal I d = Inr entry"
    "case Metadata entry of None \<Rightarrow> True
     | Some md \<Rightarrow> index_ok (Annotations md) (hooks_HookAnno I) = None"
    by auto
  let ?g = "\<lparr>Manifest.Name = path file, Content = d, Head = entry\<rparr>"
  let ?r = "result\<lparr>generic := generic result @ [?g]\<rparr>"
  note step = sort_entry_generic [OF entry, of "file" result]
  from Cons.prems have "\<forall>d \<in> set ds. \<exists>entry. yaml_Unmarshal I d = Inr entry
      \<and> (case Metadata entry of None \<Rightarrow> True
          | Some md \<Rightarrow> index_ok (Annotations md) (hooks_HookAnno I) = None)"
    by simp
  from Cons.IH [OF this, of ?r] obtain gs where gs:
    "sort_loop I file ds ?r = Done (?r\<lparr>generic := generic ?r @ gs\<rparr>, None)"
    "map Content gs = ds" "\<forall>g \<in> set gs. Manifest.Name g = path file"
    by blast
  show ?case
    by (rule exI [of _ "?g # gs"]) (simp add: step gs)
qed

lemma sourced_document:
  assumes "CHR ''\<newline>'' \<notin> set name" and "content \<noteq> []" and "ascii_TrimSpace content = content"
    and "\<forall>l \<in> set (Split content CHR ''\<newline>''). \<not> HasPrefix l ''---''"
  shows "''# Source: '' @ name @ ''\<newline>'' @ content \<noteq> []
     \<and> \<not> isSpace (hd (''# Source: '' @ name @ ''\<newline>'' @ content))
     \<and> \<not> isSpace (last (''# Source: '' @ name @ ''\<newline>'' @ content))
     \<and> (\<forall>l \<in> set (Split (''# Source: '' @ name @ ''\<newline>'' @ content) CHR ''\<newline>'').
           \<not> HasPrefix l ''---'')"
proof -
  from ascii_TrimSpace_fixed_ends [OF assms(3,2)] have "\<not> isSpace (last content)" ..
  with assms(2) have last: "\<not> isSpace (last (''# Source: '' @ name @ ''\<newline>'' @ content))"
    by simp
  have "Split ((''# Source: '' @ name) @ CHR ''\<newline>'' # content) CHR ''\<newline>''
      = Split (''# Source: '' @ name) CHR ''\<newline>'' @ Split content CHR ''\<newline>''"
    by (rule Split_append_sep)
  moreover have "Split (''# Source: '' @ name) CHR ''\<newline>'' = [''# Source: '' @ name]"
    using assms(1) by (intro Split_no_sep) simp
  ultimately have "Split (''# Source: '' @ name @ ''\<newline>'' @ content) CHR ''\<newline>''
      = (''# Source: '' @ name) # Split content CHR ''\<newline>''"
    by simp
  with assms(4) have "\<forall>l \<in> set (Split (''# Source: '' @ name @ ''\<newline>'' @ content) CHR ''\<newline>'').
      \<not> HasPrefix l ''---''"
    by (simp add: HasPrefix_def)
  with last show ?thesis by (simp add: isSpace_def)
qed

lemma sortByKind_spec_mset: "mset (sortByKind_spec table unknown gs order) = mset gs"
  by (cases order) (simp_all add: sortByKind_spec_def)


lemma SplitManifests_blank:
  assumes "ascii_TrimSpace s = []"
  shows "SplitManifests s = []"
proof -
  have "ascii_TrimSpace [] = []" by (simp add: ascii_TrimSpace_def)
  then show ?thesis
    unfolding SplitManifests_def assms by (simp add: HasPrefix_def)
qed

text \<open>
  Claim C6, amended. Take generic manifests whose names hold no line break and whose
  contents are not empty, are trimmed of ASCII white space and hold no line that begins
  with \<^verbatim>\<open>---\<close>, flatten them, and partition the text as one file that is neither a
  partial nor a notes file. If each document, now under its \<^verbatim>\<open># Source:\<close> line, parses
  to a head without a hook type, if the loop of \<^verbatim>\<open>sort\<close> visits the documents of the
  splitter modelled above in some order, if \<^verbatim>\<open>strings.TrimSpace\<close> leaves something of
  the flattened text of one manifest or more, and if the kind sorter only reorders, then
  \<^verbatim>\<open>Partition\<close> returns no error, no hook and no notes, and the contents of the
  generic manifests it returns are, as a multiset, the original contents each after the
  line \<^verbatim>\<open># Source: \<close> and its original name; every name is the path of the one file.
\<close>

theorem Partition_of_flattened_manifests:
  assumes "\<not> HasPrefix (path_Base filePath) ''_''" and "\<not> HasSuffix filePath notesFileSuffix"
    and names: "\<forall>m \<in> set ms. CHR ''\<newline>'' \<notin> set (Manifest.Name m)"
    and contents: "\<forall>m \<in> set ms. Content m \<noteq> [] \<and> ascii_TrimSpace (Content m) = Content m
      \<and> (\<forall>l \<in> set (Split (Content m) CHR ''\<newline>''). \<not> HasPrefix l ''---'')"
    and parse: "\<forall>m \<in> set ms. \<exists>entry.
      yaml_Unmarshal I (''# Source: '' @ Manifest.Name m @ ''\<newline>'' @ Content m) = Inr entry
      \<and> (case Metadata entry of None \<Rightarrow> True
          | Some md \<Rightarrow> index_ok (Annotations md) (hooks_HookAnno I) = None)"
    and split: "mset (visit filePath (util_SplitManifests I (FlattenManifests ms)))
      = mset (SplitManifests (FlattenManifests ms))"
    and nonblank: "ms \<noteq> [] \<longrightarrow> strings_TrimSpace I (FlattenManifests ms) \<noteq> []"
    and sorted: "\<forall>gs. mset (sortByKind I gs order) = mset gs"
  shows "\<exists>gs. Partition I visit [(filePath, FlattenManifests ms)] versions order
        = Done ([], gs, Map.empty, None)
      \<and> mset (map Content gs)
        = mset (map (\<lambda>m. ''# Source: '' @ Manifest.Name m @ ''\<newline>'' @ Content m) ms)
      \<and> (\<forall>g \<in> set gs. Manifest.Name g = filePath)"
proof -
  let ?sourced = "\<lambda>m. ''# Source: '' @ Manifest.Name m @ ''\<newline>'' @ Content m"
  let ?docs = "map ?sourced ms"
  let ?text = "FlattenManifests ms"
  let ?r0 = "\<lparr>hooks = [], generic = []\<rparr> :: ('a, 'b) result"
  let ?file = "\<lparr>entries = util_SplitManifests I ?text, path = filePath, apis = versions\<rparr>"
  let ?visited = "visit filePath (util_SplitManifests I ?text)"
  have flat: "?text = concat (map (\<lambda>d. ''\<newline>---\<newline>'' @ d) ?docs)"
    unfolding FlattenManifests_concat by (simp add: comp_def)
  have "\<forall>d \<in> set ?docs. d \<noteq> [] \<and> \<not> isSpace (hd d) \<and> \<not> isSpace (last d)
      \<and> (\<forall>l \<in> set (Split d CHR ''\<newline>''). \<not> HasPrefix l ''---'')"
  proof
    fix d assume "d \<in> set ?docs"
    then obtain m where m: "m \<in> set ms" "d = ?sourced m" by auto
    from m(1) names contents
    have "CHR ''\<newline>'' \<notin> set (Manifest.Name m)" "Content m \<noteq> []"
      "ascii_TrimSpace (Content m) = Content m"
      "\<forall>l \<in> set (Split (Content m) CHR ''\<newline>''). \<not> HasPrefix l ''---''"
      by auto
    from sourced_document [OF this]
    show "d \<noteq> [] \<and> \<not> isSpace (hd d) \<and> \<not> isSpace (last d)
      \<and> (\<forall>l \<in> set (Split d CHR ''\<newline>''). \<not> HasPrefix l ''---'')"
      unfolding m(2) .
  qed
  then have "SplitManifests ?text = ?docs"
    unfolding flat by (rule SplitManifests_separated_docs)
  with split have entries: "mset ?visited = mset ?docs" by simp
  show ?thesis
  proof (cases "length (strings_TrimSpace I ?text) = 0")
    case True
    with nonblank have none: "ms = []" by auto
    from sorted have "mset (sortByKind I [] order) = {#}" by simp
    then have "sortByKind I [] order = []" by simp
    then have "Partition I visit [(filePath, ?text)] versions order
        = Done ([], [], Map.empty, None)"
      unfolding Partition_def Partition_loop_skip [OF disjI2 [OF True]] by simp
    with none show ?thesis by simp
  next
    case False
    from entries have "set ?visited = set ?docs"
      by (rule mset_eq_setD)
    with parse have "\<forall>d \<in> set ?visited. \<exists>entry.
        yaml_Unmarshal I d = Inr entry
        \<and> (case Metadata entry of None \<Rightarrow> True
            | Some md \<Rightarrow> index_ok (Annotations md) (hooks_HookAnno I) = None)"
      by auto
    from sort_loop_all_generic [OF this, of ?file ?r0] obtain gs0 where gs0:
      "sort_loop I ?file ?visited ?r0 = Done (?r0\<lparr>generic := generic ?r0 @ gs0\<rparr>, None)"
      "map Content gs0 = ?visited"
      "\<forall>g \<in> set gs0. Manifest.Name g = path ?file"
      by blast
    let ?gs = "sortByKind I gs0 order"
    from sorted have perm: "mset ?gs = mset gs0" by blast
    have run: "Partition I visit [(filePath, ?text)] versions order
        = Done ([], ?gs, Map.empty, None)"
      unfolding Partition_def Partition_loop_sort [OF assms(1) False assms(2)]
      by (simp add: sort_manifestFile_def gs0(1))
    have "mset (map Content ?gs) = image_mset Content (mset ?gs)" by simp
    also have "\<dots> = mset (map Content gs0)" by (simp add: perm)
    also have "\<dots> = mset ?docs" by (simp only: gs0(2) entries)
    finally have contents': "mset (map Content ?gs) = mset ?docs" .
    from perm have "set ?gs = set gs0" by (rule mset_eq_setD)
    with gs0(3) have names': "\<forall>g \<in> set ?gs. Manifest.Name g = filePath" by simp
    from run contents' names' show ?thesis by blast
  qed
qed


theorem Partition_of_flattened_manifests_witness:
  "\<exists>gs. Partition flattened_externals in_order
           [(''manifest.yaml'', FlattenManifests [manifest_cm, manifest_secret])] {} InstallOrder
         = Done ([], gs, Map.empty, None)
       \<and> mset (map Content gs) = mset [doc_sourced_cm, doc_sourced_secret]"
proof -
  let ?I = flattened_externals
  let ?ms = "[manifest_cm, manifest_secret]"
  have kept: "\<not> HasPrefix (path_Base ''manifest.yaml'') ''_''"
    "\<not> HasSuffix ''manifest.yaml'' notesFileSuffix"
    by (simp_all add: path_Base_def HasPrefix_def HasSuffix_def notesFileSuffix_def)
  have names: "\<forall>m \<in> set ?ms. CHR ''\<newline>'' \<notin> set (Manifest.Name m)"
    by (simp add: manifest_cm_def manifest_secret_def)
  have contents: "\<forall>m \<in> set ?ms. Content m \<noteq> [] \<and> ascii_TrimSpace (Content m) = Content m
      \<and> (\<forall>l \<in> set (Split (Content m) CHR ''\<newline>''). \<not> HasPrefix l ''---'')"
    by (simp add: manifest_cm_def manifest_secret_def doc_plain_def doc_labelled_def
        ascii_TrimSpace_def isSpace_def HasPrefix_def)
  have sourced: "''# Source: '' @ Manifest.Name manifest_cm @ ''\<newline>'' @ Content manifest_cm
      = doc_sourced_cm"
    "''# Source: '' @ Manifest.Name manifest_secret @ ''\<newline>'' @ Content manifest_secret
      = doc_sourced_secret"
    by (simp_all add: manifest_cm_def manifest_secret_def doc_sourced_cm_def
        doc_sourced_secret_def doc_plain_def doc_labelled_def)
  have parse_cm: "yaml_Unmarshal ?I doc_sourced_cm = Inr (head_plain ''ConfigMap'')"
    by (simp add: flattened_externals_def flattened_Unmarshal_def)
  have parse_secret: "yaml_Unmarshal ?I doc_sourced_secret
      = Inr (head_annotated ''Secret'' [(''owner'', ''team'')])"
    by (simp add: flattened_externals_def flattened_Unmarshal_def doc_sourced_cm_def
        doc_sourced_secret_def)
  have parse: "\<forall>m \<in> set ?ms. \<exists>entry.
      yaml_Unmarshal ?I (''# Source: '' @ Manifest.Name m @ ''\<newline>'' @ Content m) = Inr entry
      \<and> (case Metadata entry of None \<Rightarrow> True
          | Some md \<Rightarrow> index_ok (Annotations md) (hooks_HookAnno ?I) = None)"
    unfolding list.set ball_simps sourced parse_cm parse_secret
    by (simp add: head_plain_def head_annotated_def index_ok_def flattened_externals_def
        example_externals_def)
  have split: "mset (in_order ''manifest.yaml'' (util_SplitManifests ?I (FlattenManifests ?ms)))
      = mset (SplitManifests (FlattenManifests ?ms))"
    by (simp add: flattened_externals_def in_order_def)
  have nonblank: "?ms \<noteq> [] \<longrightarrow> strings_TrimSpace ?I (FlattenManifests ?ms) \<noteq> []"
    by (simp add: flattened_externals_def example_externals_def FlattenManifests_def
        ascii_TrimSpace_def isSpace_def)
  have sorted: "\<forall>gs. mset (sortByKind ?I gs InstallOrder) = mset gs"
    by (simp add: flattened_externals_def sortByKind_spec_mset)
  from Partition_of_flattened_manifests
    [where visit = in_order and filePath = "''manifest.yaml''" and versions = "{}",
     OF kept names contents parse split nonblank sorted]
  show ?thesis
    unfolding list.map sourced by blast
qed

text \<open>
  Claim C6, as the claim states it, at one input: one generic manifest, as
  \<^verbatim>\<open>Partition\<close> returns it for the file \<^verbatim>\<open>parent/templates/cm.yaml\<close>. Flattened
  and partitioned again as the file \<^verbatim>\<open>manifest.yaml\<close>, its content is the original
  content under the comment line that names its source, not the original content.
\<close>

theorem Partition_of_flattened_manifests_counterexample:
  "map_run (\<lambda>(hs, gs, nts, err). (hs, map Content gs, err))
     (Partition flattened_externals in_order
        [(''manifest.yaml'', FlattenManifests [manifest_cm])] {} InstallOrder)
     = Done ([], [''# Source: parent/templates/cm.yaml\<newline>kind: ConfigMap''], None)
   \<and> map Content [manifest_cm] = [''kind: ConfigMap'']"
proof -
  let ?I = flattened_externals
  have flat: "FlattenManifests [manifest_cm] = ''\<newline>---\<newline>'' @ doc_sourced_cm"
    by (simp add: FlattenManifests_def manifest_cm_def doc_sourced_cm_def doc_plain_def)
  have kept: "\<not> HasPrefix (path_Base ''manifest.yaml'') ''_''"
    "length (strings_TrimSpace ?I (''\<newline>---\<newline>'' @ doc_sourced_cm)) \<noteq> 0"
    "\<not> HasSuffix ''manifest.yaml'' notesFileSuffix"
    by (simp_all add: path_Base_def HasPrefix_def HasSuffix_def notesFileSuffix_def
        flattened_externals_def example_externals_def ascii_TrimSpace_def isSpace_def
        doc_sourced_cm_def)
  have split: "in_order ''manifest.yaml''
      (util_SplitManifests ?I (''\<newline>---\<newline>'' @ doc_sourced_cm)) = [doc_sourced_cm]"
    by (simp add: flattened_externals_def in_order_def SplitManifests_def doc_sourced_cm_def
        ascii_TrimSpace_def isSpace_def HasPrefix_def)
  have parse: "yaml_Unmarshal ?I doc_sourced_cm = Inr (head_plain ''ConfigMap'')"
    by (simp add: flattened_externals_def flattened_Unmarshal_def)
  have entry: "sort_entry ?I file doc_sourced_cm \<lparr>hooks = [], generic = []\<rparr>
      = Continue \<lparr>hooks = [], generic = [\<lparr>Manifest.Name = path file, Content = doc_sourced_cm,
               Head = head_plain ''ConfigMap''\<rparr>]\<rparr>" for "file"
    using sort_entry_generic [OF parse, of "file" "\<lparr>hooks = [], generic = []\<rparr>"]
    by (simp add: head_plain_def)
  have sortKind: "sortByKind ?I [g] InstallOrder = [g]" for g
    by (simp add: flattened_externals_def sortByKind_spec_def)
  have "Partition ?I in_order [(''manifest.yaml'', FlattenManifests [manifest_cm])] {}
        InstallOrder
      = Done ([], [\<lparr>Manifest.Name = ''manifest.yaml'', Content = doc_sourced_cm,
                    Head = head_plain ''ConfigMap''\<rparr>], Map.empty, None)"
    unfolding flat Partition_def Partition_loop_sort [OF kept]
    using split by (simp add: sort_manifestFile_def entry sortKind)
  then show ?thesis
    by (simp add: doc_sourced_cm_def manifest_cm_def doc_plain_def)
qed

end
